theory Spec2Isabelle
  imports Main "HOL-Library.Char_ord" "HOL-Library.List_Lexorder" "HOL-Library.Product_Lexorder"
    "HOL-Library.Multiset" "HOL-Library.Sublist"
begin

section \<open>Values, rows and client records\<close>

text \<open>
  The registry of \<^verbatim>\<open>mcp_client_registry.py\<close> exchanges Python dictionaries with its
  store. A dictionary value is \<open>None\<close>, a string, a timestamp or a nested document. The
  source renders a timestamp as an ISO-8601 string of the UTC wall clock; here it is the
  clock reading itself (a natural number), so that timestamps can be compared.
\<close>

datatype pyval = PNone | PStr string | PTime nat | PDict "(string \<times> pyval) list"

type_synonym row = "string \<rightharpoonup> pyval"

type_synonym caps = "(string \<times> pyval) list"

text \<open>\<^verbatim>\<open>row.get(k)\<close> and \<^verbatim>\<open>row.get(k, d)\<close>: a missing key reads as \<open>None\<close>, or as the default.\<close>

definition get :: "row \<Rightarrow> string \<Rightarrow> pyval" where
  "get r k = (case r k of None \<Rightarrow> PNone | Some v \<Rightarrow> v)"

definition get_or :: "row \<Rightarrow> string \<Rightarrow> pyval \<Rightarrow> pyval" where
  "get_or r k d = (case r k of None \<Rightarrow> d | Some v \<Rightarrow> v)"

text \<open>An optional string argument as a dictionary value.\<close>

definition opt_str :: "string option \<Rightarrow> pyval" where
  "opt_str s = (case s of None \<Rightarrow> PNone | Some x \<Rightarrow> PStr x)"

text \<open>\<^verbatim>\<open>capabilities or {}\<close>: \<open>None\<close> and the empty dictionary are both falsy.\<close>

definition caps_or_empty :: "caps option \<Rightarrow> pyval" where
  "caps_or_empty c = (case c of None \<Rightarrow> PDict [] | Some d \<Rightarrow> (if d = [] then PDict [] else PDict d))"

text \<open>
  The dataclass \<^verbatim>\<open>MCPClient\<close>. Python does not check the annotations, so every field
  holds whatever \<^verbatim>\<open>row.get\<close> returned.
\<close>

record MCPClient =
  display_name :: pyval
  status :: pyval
  client_id :: pyval
  last_seen :: pyval
  first_seen :: pyval
  last_seen_version :: pyval
  capabilities :: pyval

definition to_model :: "row \<Rightarrow> MCPClient" where
  "to_model r = \<lparr>display_name = get r ''display_name'',
                  status = get r ''status'',
                  client_id = get r ''client_id'',
                  last_seen = get r ''last_seen'',
                  first_seen = get r ''first_seen'',
                  last_seen_version = get r ''last_seen_version'',
                  capabilities = get r ''capabilities''\<rparr>"

section \<open>The store client\<close>

text \<open>
  Every store access of the source is a chain
  \<^verbatim>\<open>self.supabase.table(t).select(..)/.update(..)/.insert(..) [.eq(c, v)] [.limit(n)] [.order(c, desc=..)] .execute()\<close>.
  The chain builds a request; \<^verbatim>\<open>execute()\<close> hands it to the store and either raises or
  returns a response whose \<^verbatim>\<open>data\<close> is a list of rows.
\<close>

datatype verb = Select string | Update row | Insert row

record request =
  from_tbl :: string
  action :: verb
  filters :: "(string \<times> pyval) list"
  row_limit :: "nat option"
  ordering :: "(string \<times> bool) option"

datatype response = Response (data: "row list")

datatype error = APIError | TypeError

definition sb_select :: "string \<Rightarrow> string \<Rightarrow> request" where
  "sb_select cols t = \<lparr>from_tbl = t, action = Select cols, filters = [], row_limit = None, ordering = None\<rparr>"

definition sb_update :: "row \<Rightarrow> string \<Rightarrow> request" where
  "sb_update u t = \<lparr>from_tbl = t, action = Update u, filters = [], row_limit = None, ordering = None\<rparr>"

definition sb_insert :: "row \<Rightarrow> string \<Rightarrow> request" where
  "sb_insert p t = \<lparr>from_tbl = t, action = Insert p, filters = [], row_limit = None, ordering = None\<rparr>"

definition sb_eq :: "string \<Rightarrow> pyval \<Rightarrow> request \<Rightarrow> request" where
  "sb_eq c v q = q\<lparr>filters := filters q @ [(c, v)]\<rparr>"

definition sb_limit :: "nat \<Rightarrow> request \<Rightarrow> request" where
  "sb_limit n q = q\<lparr>row_limit := Some n\<rparr>"

definition sb_order :: "string \<Rightarrow> bool \<Rightarrow> request \<Rightarrow> request" where
  "sb_order c desc q = q\<lparr>ordering := Some (c, desc)\<rparr>"

text \<open>
  The store is outside the repository: a client is any function from a request and the
  store's state to an outcome and the next state. The world of one registry is that
  state together with the wall clock, an unknown sequence of readings of which
  \<^verbatim>\<open>_now_iso()\<close> takes the next one at each call.
\<close>

type_synonym 'db client = "request \<Rightarrow> 'db \<Rightarrow> (error + response) \<times> 'db"

record 'db world =
  backend :: 'db
  clock :: "nat \<Rightarrow> nat"
  reads :: nat

definition execute :: "'db client \<Rightarrow> request \<Rightarrow> 'db world \<Rightarrow> (error + response) \<times> 'db world" where
  "execute supabase q w = (case supabase q (backend w) of (res, db') \<Rightarrow> (res, w\<lparr>backend := db'\<rparr>))"

definition now_iso :: "'db world \<Rightarrow> pyval \<times> 'db world" where
  "now_iso w = (PTime (clock w (reads w)), w\<lparr>reads := Suc (reads w)\<rparr>)"

section \<open>The registry operations\<close>

text \<open>The dictionaries the source builds for its writes.\<close>

definition connected_update :: "pyval \<Rightarrow> string option \<Rightarrow> string option \<Rightarrow> caps option \<Rightarrow> row" where
  "connected_update now cid ver cps =
     (let update = [''status'' \<mapsto> PStr ''connected'', ''last_seen'' \<mapsto> now];
          update = (case cid of None \<Rightarrow> update | Some c \<Rightarrow> update(''client_id'' \<mapsto> PStr c));
          update = (case ver of None \<Rightarrow> update | Some v \<Rightarrow> update(''last_seen_version'' \<mapsto> PStr v));
          update = (case cps of None \<Rightarrow> update | Some d \<Rightarrow> update(''capabilities'' \<mapsto> PDict d))
      in update)"

definition connected_insert :: "string \<Rightarrow> pyval \<Rightarrow> string option \<Rightarrow> string option \<Rightarrow> caps option \<Rightarrow> row" where
  "connected_insert dn now cid ver cps =
     [''display_name'' \<mapsto> PStr dn,
      ''client_id'' \<mapsto> opt_str cid,
      ''status'' \<mapsto> PStr ''connected'',
      ''first_seen'' \<mapsto> now,
      ''last_seen'' \<mapsto> now,
      ''last_seen_version'' \<mapsto> opt_str ver,
      ''capabilities'' \<mapsto> caps_or_empty cps]"

definition disconnected_update :: "pyval \<Rightarrow> row" where
  "disconnected_update now = [''status'' \<mapsto> PStr ''disconnected'', ''last_seen'' \<mapsto> now]"

definition disconnected_insert :: "string \<Rightarrow> pyval \<Rightarrow> row" where
  "disconnected_insert dn now =
     [''display_name'' \<mapsto> PStr dn, ''status'' \<mapsto> PStr ''disconnected'',
      ''first_seen'' \<mapsto> now, ''last_seen'' \<mapsto> now]"

text \<open>
  \<^verbatim>\<open>mark_connected\<close>: the body of the \<^verbatim>\<open>try\<close> block, where a raising store call ends
  the block with the exception, and then the function with its \<^verbatim>\<open>except Exception\<close>
  handler. The handler reads the clock twice, first for \<^verbatim>\<open>last_seen\<close> and then for
  \<^verbatim>\<open>first_seen\<close>, the order in which Python evaluates the keyword arguments.
\<close>

definition mark_connected_try ::
  "'db client \<Rightarrow> string \<Rightarrow> string option \<Rightarrow> string option \<Rightarrow> caps option \<Rightarrow> 'db world
     \<Rightarrow> (error + MCPClient) \<times> 'db world" where
  "mark_connected_try supabase dn cid ver cps w =
     (case execute supabase
             (sb_limit 1 (sb_eq ''display_name'' (PStr dn) (sb_select ''*'' ''mcp_clients''))) w of
        (Inl e, w1) \<Rightarrow> (Inl e, w1)
      | (Inr existing, w1) \<Rightarrow>
          (case now_iso w1 of (now, w2) \<Rightarrow>
            (case data existing of
               row # _ \<Rightarrow>
                 (let update = connected_update now cid ver cps in
                  case execute supabase
                         (sb_eq ''display_name'' (PStr dn) (sb_update update ''mcp_clients'')) w2 of
                    (Inl e, w3) \<Rightarrow> (Inl e, w3)
                  | (Inr updated, w3) \<Rightarrow>
                      (Inr (to_model (case data updated of r # _ \<Rightarrow> r | [] \<Rightarrow> row ++ update)), w3))
             | [] \<Rightarrow>
                 (let insert = connected_insert dn now cid ver cps in
                  case execute supabase (sb_insert insert ''mcp_clients'') w2 of
                    (Inl e, w3) \<Rightarrow> (Inl e, w3)
                  | (Inr res, w3) \<Rightarrow>
                      (Inr (to_model (case data res of r # _ \<Rightarrow> r | [] \<Rightarrow> insert)), w3)))))"

definition mark_connected ::
  "'db client \<Rightarrow> string \<Rightarrow> string option \<Rightarrow> string option \<Rightarrow> caps option \<Rightarrow> 'db world
     \<Rightarrow> MCPClient \<times> 'db world" where
  "mark_connected supabase dn cid ver cps w =
     (case mark_connected_try supabase dn cid ver cps w of
        (Inr m, w') \<Rightarrow> (m, w')
      | (Inl e, w') \<Rightarrow>
          (case now_iso w' of (t_last, w1) \<Rightarrow>
            (case now_iso w1 of (t_first, w2) \<Rightarrow>
              (\<lparr>display_name = PStr dn, status = PStr ''connected'', client_id = opt_str cid,
                last_seen = t_last, first_seen = t_first, last_seen_version = opt_str ver,
                capabilities = caps_or_empty cps\<rparr>, w2))))"

text \<open>\<^verbatim>\<open>mark_disconnected\<close>: update by name; when no row comes back, insert one.\<close>

definition mark_disconnected_try ::
  "'db client \<Rightarrow> string \<Rightarrow> 'db world \<Rightarrow> (error + MCPClient) \<times> 'db world" where
  "mark_disconnected_try supabase dn w =
     (case now_iso w of (now, w1) \<Rightarrow>
       (case execute supabase
               (sb_eq ''display_name'' (PStr dn) (sb_update (disconnected_update now) ''mcp_clients'')) w1 of
          (Inl e, w2) \<Rightarrow> (Inl e, w2)
        | (Inr updated, w2) \<Rightarrow>
            (case data updated of
               r # _ \<Rightarrow> (Inr (to_model r), w2)
             | [] \<Rightarrow>
                 (let insert = disconnected_insert dn now in
                  case execute supabase (sb_insert insert ''mcp_clients'') w2 of
                    (Inl e, w3) \<Rightarrow> (Inl e, w3)
                  | (Inr res, w3) \<Rightarrow>
                      (Inr (to_model (case data res of r # _ \<Rightarrow> r | [] \<Rightarrow> insert)), w3)))))"

definition mark_disconnected ::
  "'db client \<Rightarrow> string \<Rightarrow> 'db world \<Rightarrow> MCPClient option \<times> 'db world" where
  "mark_disconnected supabase dn w =
     (case mark_disconnected_try supabase dn w of
        (Inr m, w') \<Rightarrow> (Some m, w')
      | (Inl e, w') \<Rightarrow> (None, w'))"

text \<open>
  \<^verbatim>\<open>rows.sort(key=lambda r: (r.get("status") != "connected", r.get("display_name", "")))\<close>.
  Python's sort is stable and compares the key tuples: the flags first (\<open>False\<close> before
  \<open>True\<close>), and only for equal flags the names. Equal names compare without error,
  two strings compare by code point, and the comparison of two different names that
  are not both strings raises \<open>TypeError\<close>. Two rows are comparable when their
  comparison cannot raise. When all rows are pairwise comparable, each status group
  holds strings only or one and the same name throughout, and the result is the stable
  sort by the key, which is what \<open>sort_key\<close> computes. When two rows of one status
  group are not comparable the sort raises: the order inside a group follows from
  comparisons between rows of that group alone, so the rows with the offending name
  cannot be placed among the others of the group unless one of them is compared with
  one of the others. (Values that are not strings, a timestamp among them, count as
  not ordered.)
\<close>

definition sort_flag :: "row \<Rightarrow> bool" where
  "sort_flag r = (get r ''status'' \<noteq> PStr ''connected'')"

definition sort_name :: "row \<Rightarrow> pyval" where
  "sort_name r = get_or r ''display_name'' (PStr '''')"

fun is_str :: "pyval \<Rightarrow> bool" where
  "is_str (PStr s) = True"
| "is_str v = False"

fun str_of :: "pyval \<Rightarrow> string" where
  "str_of (PStr s) = s"
| "str_of v = []"

definition row_key :: "row \<Rightarrow> bool \<times> string" where
  "row_key r = (sort_flag r, str_of (sort_name r))"

definition comparable :: "row \<Rightarrow> row \<Rightarrow> bool" where
  "comparable r r' =
     (if sort_flag r = sort_flag r'
      then sort_name r = sort_name r' \<or> (is_str (sort_name r) \<and> is_str (sort_name r'))
      else True)"

definition sort_rows :: "row list \<Rightarrow> error + row list" where
  "sort_rows rs = (if list_all (\<lambda>r. list_all (comparable r) rs) rs then Inr (sort_key row_key rs)
                   else Inl TypeError)"

definition list_all_try :: "'db client \<Rightarrow> 'db world \<Rightarrow> (error + MCPClient list) \<times> 'db world" where
  "list_all_try supabase w =
     (case execute supabase (sb_order ''last_seen'' True (sb_select ''*'' ''mcp_clients'')) w of
        (Inl e, w1) \<Rightarrow> (Inl e, w1)
      | (Inr resp, w1) \<Rightarrow>
          (case sort_rows (data resp) of
             Inl e \<Rightarrow> (Inl e, w1)
           | Inr rs \<Rightarrow> (Inr (map to_model rs), w1)))"

definition list_all_clients :: "'db client \<Rightarrow> 'db world \<Rightarrow> MCPClient list \<times> 'db world" where
  "list_all_clients supabase w =
     (case list_all_try supabase w of
        (Inr ms, w') \<Rightarrow> (ms, w')
      | (Inl e, w') \<Rightarrow> ([], w'))"

definition exists_try :: "'db client \<Rightarrow> string \<Rightarrow> 'db world \<Rightarrow> (error + bool) \<times> 'db world" where
  "exists_try supabase dn w =
     (case execute supabase
             (sb_limit 1 (sb_eq ''display_name'' (PStr dn) (sb_select ''display_name'' ''mcp_clients''))) w of
        (Inl e, w1) \<Rightarrow> (Inl e, w1)
      | (Inr resp, w1) \<Rightarrow> (Inr (data resp \<noteq> []), w1))"

definition exists :: "'db client \<Rightarrow> string \<Rightarrow> 'db world \<Rightarrow> bool \<times> 'db world" where
  "exists supabase dn w =
     (case exists_try supabase dn w of
        (Inr b, w') \<Rightarrow> (b, w')
      | (Inl e, w') \<Rightarrow> (False, w'))"


section \<open>A reference store\<close>

text \<open>
  The store the registry talks to is a remote table \<^verbatim>\<open>mcp_clients\<close>. Its reference
  model is a list of rows and a plan of faults: each request takes the next entry of the
  plan and raises, leaving the rows as they are, when the entry is \<open>True\<close>; an exhausted
  plan means no further fault. A request that does not raise is answered as a relational
  store answers it:
  \<^item> a select returns the rows that satisfy every \<^verbatim>\<open>eq\<close> filter, ordered and limited as
    asked, with the selected columns;
  \<^item> an update merges its payload into every row that satisfies the filters and returns
    the rows it changed;
  \<^item> an insert stores the payload, after filling the columns it does not mention from
    the table's column defaults, and returns the stored row.
  The column defaults belong to the table's declaration, which is not part of the
  source; they are a parameter.
\<close>

record table_db =
  rows :: "row list"
  faults :: "bool list"

definition next_fault :: "bool list \<Rightarrow> bool" where
  "next_fault fs = (case fs of [] \<Rightarrow> False | f # _ \<Rightarrow> f)"

definition matches :: "(string \<times> pyval) list \<Rightarrow> row \<Rightarrow> bool" where
  "matches fs r = list_all (\<lambda>(c, v). r c = Some v) fs"

text \<open>Ascending order of a timestamp column, rows without a timestamp last.\<close>

definition order_key :: "string \<Rightarrow> row \<Rightarrow> bool \<times> nat" where
  "order_key c r = (case get r c of PTime t \<Rightarrow> (False, t) | _ \<Rightarrow> (True, 0))"

definition apply_order :: "(string \<times> bool) option \<Rightarrow> row list \<Rightarrow> row list" where
  "apply_order ord rs =
     (case ord of None \<Rightarrow> rs
      | Some (c, desc) \<Rightarrow> (if desc then rev (sort_key (order_key c) rs) else sort_key (order_key c) rs))"

definition apply_limit :: "nat option \<Rightarrow> row list \<Rightarrow> row list" where
  "apply_limit lim rs = (case lim of None \<Rightarrow> rs | Some n \<Rightarrow> take n rs)"

definition project :: "string \<Rightarrow> row \<Rightarrow> row" where
  "project cols r = (if cols = ''*'' then r else r |` {cols})"

text \<open>What a request that does not raise returns, and the rows it leaves.\<close>

definition answer :: "row \<Rightarrow> request \<Rightarrow> row list \<Rightarrow> response \<times> row list" where
  "answer defaults q rs =
     (case action q of
        Select cols \<Rightarrow>
          (Response (map (project cols)
             (apply_limit (row_limit q) (apply_order (ordering q) (filter (matches (filters q)) rs)))),
           rs)
      | Update u \<Rightarrow>
          (Response (map (\<lambda>r. r ++ u) (filter (matches (filters q)) rs)),
           map (\<lambda>r. if matches (filters q) r then r ++ u else r) rs)
      | Insert p \<Rightarrow> (Response [defaults ++ p], rs @ [defaults ++ p]))"

definition table_client :: "row \<Rightarrow> table_db client" where
  "table_client defaults q db =
     (if next_fault (faults db) \<or> from_tbl q \<noteq> ''mcp_clients''
      then (Inl APIError, db\<lparr>faults := tl (faults db)\<rparr>)
      else (case answer defaults q (rows db) of
              (resp, rs') \<Rightarrow> (Inr resp, \<lparr>rows = rs', faults = tl (faults db)\<rparr>)))"

text \<open>The stored names, and a world over the reference store.\<close>

definition has_name :: "string \<Rightarrow> row \<Rightarrow> bool" where
  "has_name dn r = (r ''display_name'' = Some (PStr dn))"

definition init_world :: "row list \<Rightarrow> bool list \<Rightarrow> (nat \<Rightarrow> nat) \<Rightarrow> table_db world" where
  "init_world rs fs clk = \<lparr>backend = \<lparr>rows = rs, faults = fs\<rparr>, clock = clk, reads = 0\<rparr>"

text \<open>
  Modelled from the spec: the column defaults of the table \<^verbatim>\<open>mcp_clients\<close>, whose
  declaration (\<^verbatim>\<open>migration/add_mcp_clients_table.sql\<close>) is not among the sources. The
  specification gives \<^verbatim>\<open>status\<close> the default \<open>connected\<close> and \<^verbatim>\<open>capabilities\<close> the
  empty document as default; the other columns have none.
\<close>

definition spec_defaults :: row where
  "spec_defaults = [''status'' \<mapsto> PStr ''connected'', ''capabilities'' \<mapsto> PDict []]"


text \<open>The rows stored under a name, and the rows after a payload was merged into them.\<close>

definition stored :: "string \<Rightarrow> table_db world \<Rightarrow> row list" where
  "stored dn w = filter (has_name dn) (rows (backend w))"

definition touch :: "string \<Rightarrow> row \<Rightarrow> row list \<Rightarrow> row list" where
  "touch dn u rs = map (\<lambda>r. if has_name dn r then r ++ u else r) rs"

text \<open>Timestamps in order: both are clock readings and the first is not after the second.\<close>

fun ts_le :: "pyval \<Rightarrow> pyval \<Rightarrow> bool" where
  "ts_le (PTime a) (PTime b) = (a \<le> b)"
| "ts_le u v = False"

text \<open>
  A row in order at time \<open>t\<close>: its \<^verbatim>\<open>first_seen\<close> is not after its \<^verbatim>\<open>last_seen\<close>,
  which is not after \<open>t\<close>.
\<close>

definition in_order :: "nat \<Rightarrow> row \<Rightarrow> bool" where
  "in_order t r = (ts_le (get r ''first_seen'') (get r ''last_seen'') \<and> ts_le (get r ''last_seen'') (PTime t))"


text \<open>A record is listed as connected when its status is the string \<open>connected\<close>.\<close>

definition is_connected :: "MCPClient \<Rightarrow> bool" where
  "is_connected m = (status m = PStr ''connected'')"

text \<open>Names in ascending order: both are strings and the first is not above the second.\<close>

fun name_le :: "pyval \<Rightarrow> pyval \<Rightarrow> bool" where
  "name_le (PStr a) (PStr b) = (a \<le> b)"
| "name_le u v = False"

text \<open>
  A caller's view of the registry over the reference store: any sequence of the four
  operations, each leaving the world to the next.
\<close>

datatype op =
    Connect string "string option" "string option" "caps option"
  | Disconnect string
  | ListAll
  | Exists string

fun run_op :: "row \<Rightarrow> op \<Rightarrow> table_db world \<Rightarrow> table_db world" where
  "run_op d (Connect dn cid ver cps) w = snd (mark_connected (table_client d) dn cid ver cps w)"
| "run_op d (Disconnect dn) w = snd (mark_disconnected (table_client d) dn w)"
| "run_op d ListAll w = snd (list_all_clients (table_client d) w)"
| "run_op d (Exists dn) w = snd (exists (table_client d) dn w)"

definition run_ops :: "row \<Rightarrow> op list \<Rightarrow> table_db world \<Rightarrow> table_db world" where
  "run_ops d ops w = fold (run_op d) ops w"

section \<open>The reference store answers the registry's requests\<close>

lemma execute_table:
  "execute (table_client d) q w =
     (if next_fault (faults (backend w)) \<or> from_tbl q \<noteq> ''mcp_clients''
      then (Inl APIError, w\<lparr>backend := (backend w)\<lparr>faults := tl (faults (backend w))\<rparr>\<rparr>)
      else (Inr (fst (answer d q (rows (backend w)))),
            w\<lparr>backend := \<lparr>rows = snd (answer d q (rows (backend w))), faults = tl (faults (backend w))\<rparr>\<rparr>))"
  by (simp add: execute_def table_client_def split: prod.splits)

lemma matches_name [simp]: "matches [(''display_name'', PStr dn)] = has_name dn"
  by (rule ext) (simp add: matches_def has_name_def)

lemma project_star [simp]: "project ''*'' = (\<lambda>r. r)"
  by (rule ext) (simp add: project_def)

lemma answer_select_by_name:
  "answer d (sb_limit (Suc 0) (sb_eq ''display_name'' (PStr dn) (sb_select cols ''mcp_clients''))) rs =
     (Response (map (project cols) (take (Suc 0) (filter (has_name dn) rs))), rs)"
  by (simp add: answer_def sb_limit_def sb_eq_def sb_select_def apply_limit_def apply_order_def)

lemma answer_update_by_name:
  "answer d (sb_eq ''display_name'' (PStr dn) (sb_update u ''mcp_clients'')) rs =
     (Response (map (\<lambda>r. r ++ u) (filter (has_name dn) rs)), touch dn u rs)"
  by (simp add: answer_def sb_eq_def sb_update_def touch_def)

lemma answer_insert:
  "answer d (sb_insert p ''mcp_clients'') rs = (Response [d ++ p], rs @ [d ++ p])"
  by (simp add: answer_def sb_insert_def)

lemma answer_select_all:
  "answer d (sb_order ''last_seen'' True (sb_select ''*'' ''mcp_clients'')) rs =
     (Response (rev (sort_key (order_key ''last_seen'') rs)), rs)"
  by (simp add: answer_def sb_order_def sb_select_def apply_limit_def apply_order_def matches_def)

lemma from_tbl_simps [simp]:
  "from_tbl (sb_select cols t) = t" "from_tbl (sb_update u t) = t" "from_tbl (sb_insert p t) = t"
  "from_tbl (sb_eq c v q) = from_tbl q" "from_tbl (sb_limit n q) = from_tbl q"
  "from_tbl (sb_order c b q) = from_tbl q"
  by (simp_all add: sb_select_def sb_update_def sb_insert_def sb_eq_def sb_limit_def sb_order_def)

lemma mark_connected_try_table:
  "mark_connected_try (table_client d) dn cid ver cps w =
     (let db = backend w; fs = faults db; now = PTime (clock w (reads w)) in
      if next_fault fs then (Inl APIError, w\<lparr>backend := db\<lparr>faults := tl fs\<rparr>\<rparr>)
      else if next_fault (tl fs)
        then (Inl APIError, w\<lparr>backend := db\<lparr>faults := tl (tl fs)\<rparr>, reads := Suc (reads w)\<rparr>)
      else (case filter (has_name dn) (rows db) of
              [] \<Rightarrow> (Inr (to_model (d ++ connected_insert dn now cid ver cps)),
                     w\<lparr>backend := \<lparr>rows = rows db @ [d ++ connected_insert dn now cid ver cps],
                                    faults = tl (tl fs)\<rparr>, reads := Suc (reads w)\<rparr>)
            | r # _ \<Rightarrow> (Inr (to_model (r ++ connected_update now cid ver cps)),
                     w\<lparr>backend := \<lparr>rows = touch dn (connected_update now cid ver cps) (rows db),
                                    faults = tl (tl fs)\<rparr>, reads := Suc (reads w)\<rparr>)))"
  by (simp add: mark_connected_try_def execute_table answer_select_by_name answer_update_by_name
        answer_insert now_iso_def Let_def split: list.splits)

lemma touch_absent: "filter (has_name dn) rs = [] \<Longrightarrow> touch dn u rs = rs"
  by (induction rs) (auto simp: touch_def split: if_splits)

lemma mark_disconnected_try_table:
  "mark_disconnected_try (table_client d) dn w =
     (let db = backend w; fs = faults db; now = PTime (clock w (reads w)) in
      if next_fault fs
        then (Inl APIError, w\<lparr>backend := db\<lparr>faults := tl fs\<rparr>, reads := Suc (reads w)\<rparr>)
      else (case filter (has_name dn) (rows db) of
              r # _ \<Rightarrow> (Inr (to_model (r ++ disconnected_update now)),
                     w\<lparr>backend := \<lparr>rows = touch dn (disconnected_update now) (rows db),
                                    faults = tl fs\<rparr>, reads := Suc (reads w)\<rparr>)
            | [] \<Rightarrow>
                (if next_fault (tl fs)
                 then (Inl APIError, w\<lparr>backend := db\<lparr>faults := tl (tl fs)\<rparr>, reads := Suc (reads w)\<rparr>)
                 else (Inr (to_model (d ++ disconnected_insert dn now)),
                       w\<lparr>backend := \<lparr>rows = rows db @ [d ++ disconnected_insert dn now],
                                      faults = tl (tl fs)\<rparr>, reads := Suc (reads w)\<rparr>))))"
  by (simp add: mark_disconnected_try_def execute_table answer_update_by_name
        answer_insert now_iso_def Let_def touch_absent split: list.splits)

lemma list_all_try_table:
  "list_all_try (table_client d) w =
     (let db = backend w; fs = faults db in
      if next_fault fs then (Inl APIError, w\<lparr>backend := db\<lparr>faults := tl fs\<rparr>\<rparr>)
      else (case sort_rows (rev (sort_key (order_key ''last_seen'') (rows db))) of
              Inl e \<Rightarrow> (Inl e, w\<lparr>backend := db\<lparr>faults := tl fs\<rparr>\<rparr>)
            | Inr rs \<Rightarrow> (Inr (map to_model rs), w\<lparr>backend := db\<lparr>faults := tl fs\<rparr>\<rparr>)))"
  by (simp add: list_all_try_def execute_table answer_select_all Let_def split: sum.splits)

lemma exists_try_table:
  "exists_try (table_client d) dn w =
     (let db = backend w; fs = faults db in
      if next_fault fs then (Inl APIError, w\<lparr>backend := db\<lparr>faults := tl fs\<rparr>\<rparr>)
      else (Inr (filter (has_name dn) (rows db) \<noteq> []), w\<lparr>backend := db\<lparr>faults := tl fs\<rparr>\<rparr>))"
  by (simp add: exists_try_def execute_table answer_select_by_name Let_def)

lemma mark_connected_table_ok:
  assumes "\<not> next_fault (faults (backend w))" "\<not> next_fault (tl (faults (backend w)))"
  shows "mark_connected (table_client d) dn cid ver cps w =
     (let now = PTime (clock w (reads w)) in
      case stored dn w of
        [] \<Rightarrow> (to_model (d ++ connected_insert dn now cid ver cps),
               w\<lparr>backend := \<lparr>rows = rows (backend w) @ [d ++ connected_insert dn now cid ver cps],
                              faults = tl (tl (faults (backend w)))\<rparr>, reads := Suc (reads w)\<rparr>)
      | r # _ \<Rightarrow> (to_model (r ++ connected_update now cid ver cps),
               w\<lparr>backend := \<lparr>rows = touch dn (connected_update now cid ver cps) (rows (backend w)),
                              faults = tl (tl (faults (backend w)))\<rparr>, reads := Suc (reads w)\<rparr>))"
  using assms
  by (simp add: mark_connected_def mark_connected_try_table stored_def Let_def split: list.splits)

lemma mark_connected_table_rows:
  "rows (backend (snd (mark_connected (table_client d) dn cid ver cps w))) =
     (let now = PTime (clock w (reads w)) in
      if next_fault (faults (backend w)) \<or> next_fault (tl (faults (backend w))) then rows (backend w)
      else if stored dn w = [] then rows (backend w) @ [d ++ connected_insert dn now cid ver cps]
      else touch dn (connected_update now cid ver cps) (rows (backend w)))"
  by (simp add: mark_connected_def mark_connected_try_table stored_def now_iso_def Let_def split: list.splits)

lemma mark_disconnected_table_ok:
  assumes "\<not> next_fault (faults (backend w))" "\<not> next_fault (tl (faults (backend w)))"
  shows "mark_disconnected (table_client d) dn w =
     (let now = PTime (clock w (reads w)) in
      case stored dn w of
        [] \<Rightarrow> (Some (to_model (d ++ disconnected_insert dn now)),
               w\<lparr>backend := \<lparr>rows = rows (backend w) @ [d ++ disconnected_insert dn now],
                              faults = tl (tl (faults (backend w)))\<rparr>, reads := Suc (reads w)\<rparr>)
      | r # _ \<Rightarrow> (Some (to_model (r ++ disconnected_update now)),
               w\<lparr>backend := \<lparr>rows = touch dn (disconnected_update now) (rows (backend w)),
                              faults = tl (faults (backend w))\<rparr>, reads := Suc (reads w)\<rparr>))"
  using assms
  by (simp add: mark_disconnected_def mark_disconnected_try_table stored_def Let_def split: list.splits)

lemma mark_disconnected_table_rows:
  "rows (backend (snd (mark_disconnected (table_client d) dn w))) =
     (let now = PTime (clock w (reads w)) in
      if next_fault (faults (backend w)) then rows (backend w)
      else if stored dn w \<noteq> [] then touch dn (disconnected_update now) (rows (backend w))
      else if next_fault (tl (faults (backend w))) then rows (backend w)
      else rows (backend w) @ [d ++ disconnected_insert dn now])"
  by (simp add: mark_disconnected_def mark_disconnected_try_table stored_def Let_def split: list.splits)

lemma list_all_table_rows:
  "rows (backend (snd (list_all_clients (table_client d) w))) = rows (backend w)"
  by (simp add: list_all_clients_def list_all_try_table Let_def split: sum.splits)

lemma exists_table_rows:
  "rows (backend (snd (exists (table_client d) dn w))) = rows (backend w)"
  by (simp add: exists_def exists_try_table Let_def)

lemma connected_update_keys:
  "connected_update now cid ver cps ''display_name'' = None"
  "connected_update now cid ver cps ''first_seen'' = None"
  by (simp_all add: connected_update_def Let_def split: option.splits)

lemma disconnected_update_keys:
  "disconnected_update now ''display_name'' = None"
  "disconnected_update now ''first_seen'' = None"
  by (simp_all add: disconnected_update_def)

lemma insert_names:
  "connected_insert dn now cid ver cps ''display_name'' = Some (PStr dn)"
  "disconnected_insert dn now ''display_name'' = Some (PStr dn)"
  by (simp_all add: connected_insert_def disconnected_insert_def)

text \<open>Every operation leaves the rows alone, merges a payload without name or
  first_seen into the rows of one name, or appends a row of a name that was not stored.\<close>

lemma run_op_rows:
  "rows (backend (run_op d op w)) = rows (backend w) \<or>
   (\<exists>dn u. u ''display_name'' = None \<and> u ''first_seen'' = None \<and>
            rows (backend (run_op d op w)) = touch dn u (rows (backend w))) \<or>
   (\<exists>dn p. stored dn w = [] \<and> p ''display_name'' = Some (PStr dn) \<and>
            rows (backend (run_op d op w)) = rows (backend w) @ [d ++ p])"
  (is "?same \<or> ?merged \<or> ?added")
proof (cases op)
  case (Connect dn cid ver cps)
  let ?now = "PTime (clock w (reads w))"
  let ?rs' = "rows (backend (snd (mark_connected (table_client d) dn cid ver cps w)))"
  have eq: "rows (backend (run_op d op w)) = ?rs'" by (simp add: Connect)
  consider (f) "next_fault (faults (backend w)) \<or> next_fault (tl (faults (backend w)))"
    | (i) "\<not> (next_fault (faults (backend w)) \<or> next_fault (tl (faults (backend w))))" "stored dn w = []"
    | (u) "\<not> (next_fault (faults (backend w)) \<or> next_fault (tl (faults (backend w))))" "stored dn w \<noteq> []"
    by blast
  then show ?thesis
  proof cases
    case f
    then have "?rs' = rows (backend w)" by (simp add: mark_connected_table_rows)
    with eq show ?thesis by simp
  next
    case i
    then have "?rs' = rows (backend w) @ [d ++ connected_insert dn ?now cid ver cps]"
      by (simp add: mark_connected_table_rows)
    with eq i(2) insert_names(1) [of dn ?now cid ver cps] have ?added
      by (intro exI [of _ dn] exI [of _ "connected_insert dn ?now cid ver cps"]) simp
    then show ?thesis by (rule disjI2 [OF disjI2])
  next
    case u
    then have "?rs' = touch dn (connected_update ?now cid ver cps) (rows (backend w))"
      by (simp add: mark_connected_table_rows)
    with eq connected_update_keys [of ?now cid ver cps] have ?merged
      by (intro exI [of _ dn] exI [of _ "connected_update ?now cid ver cps"]) simp
    then show ?thesis by (rule disjI2 [OF disjI1])
  qed
next
  case (Disconnect dn)
  let ?now = "PTime (clock w (reads w))"
  let ?rs' = "rows (backend (snd (mark_disconnected (table_client d) dn w)))"
  have eq: "rows (backend (run_op d op w)) = ?rs'" by (simp add: Disconnect)
  have "?rs' = rows (backend w) \<or>
        (stored dn w = [] \<and> ?rs' = rows (backend w) @ [d ++ disconnected_insert dn ?now]) \<or>
        ?rs' = touch dn (disconnected_update ?now) (rows (backend w))"
    by (simp add: mark_disconnected_table_rows Let_def)
  then consider (f) "?rs' = rows (backend w)"
    | (i) "stored dn w = []" "?rs' = rows (backend w) @ [d ++ disconnected_insert dn ?now]"
    | (u) "?rs' = touch dn (disconnected_update ?now) (rows (backend w))"
    by blast
  then show ?thesis
  proof cases
    case f
    with eq show ?thesis by simp
  next
    case i
    with eq insert_names(2) [of dn ?now] have ?added
      by (intro exI [of _ dn] exI [of _ "disconnected_insert dn ?now"]) simp
    then show ?thesis by (rule disjI2 [OF disjI2])
  next
    case u
    with eq disconnected_update_keys [of ?now] have ?merged
      by (intro exI [of _ dn] exI [of _ "disconnected_update ?now"]) simp
    then show ?thesis by (rule disjI2 [OF disjI1])
  qed
next
  case ListAll
  then show ?thesis by (simp add: list_all_table_rows)
next
  case (Exists dn)
  then show ?thesis by (simp add: exists_table_rows)
qed

section \<open>Store failures\<close>

lemma execute_frame: "execute supabase q w = (res, w') \<Longrightarrow> clock w' = clock w \<and> reads w' = reads w"
  by (auto simp: execute_def split: prod.splits)

lemma mark_connected_try_frame:
  assumes "mark_connected_try supabase dn cid ver cps w = (res, w')"
  shows "clock w' = clock w \<and> reads w \<le> reads w' \<and> reads w' \<le> Suc (reads w)"
  using assms
  by (auto simp: mark_connected_try_def now_iso_def Let_def
       split: prod.splits sum.splits list.splits dest!: execute_frame)

text \<open>
  The \<^verbatim>\<open>try\<close> block of \<^verbatim>\<open>mark_connected\<close> raises exactly when one of its store calls
  does: the select, or the write that follows it.
\<close>

lemma mark_connected_try_raises_iff:
  "isl (fst (mark_connected_try supabase dn cid ver cps w)) \<longleftrightarrow>
     (case execute supabase
             (sb_limit 1 (sb_eq ''display_name'' (PStr dn) (sb_select ''*'' ''mcp_clients''))) w of
        (Inl e, w1) \<Rightarrow> True
      | (Inr existing, w1) \<Rightarrow>
          (case now_iso w1 of (now, w2) \<Rightarrow>
             isl (fst (execute supabase
                    (case data existing of
                       [] \<Rightarrow> sb_insert (connected_insert dn now cid ver cps) ''mcp_clients''
                     | row # _ \<Rightarrow> sb_eq ''display_name'' (PStr dn)
                                   (sb_update (connected_update now cid ver cps) ''mcp_clients''))
                    w2))))"
  by (simp add: mark_connected_try_def Let_def split: prod.splits sum.splits list.splits)

text \<open>
  Claim C3. Whatever the store client and the arguments, when the store fails during
  \<^verbatim>\<open>mark_connected\<close> (its \<^verbatim>\<open>try\<close> block ends with an exception \<open>e\<close>), the operation
  returns a record instead of the error: the display name, client id, version and
  capabilities are those of the call (absent capabilities become the empty document),
  the status is \<open>connected\<close>, and the two timestamps are the next two readings of the
  clock, taken after the failure.
\<close>

theorem mark_connected_fallback:
  assumes "mark_connected_try supabase dn cid ver cps w = (Inl e, w')"
  shows "mark_connected supabase dn cid ver cps w =
           (\<lparr>display_name = PStr dn, status = PStr ''connected'', client_id = opt_str cid,
             last_seen = PTime (clock w (reads w')), first_seen = PTime (clock w (Suc (reads w'))),
             last_seen_version = opt_str ver, capabilities = caps_or_empty cps\<rparr>,
            w'\<lparr>reads := Suc (Suc (reads w'))\<rparr>)
         \<and> reads w \<le> reads w'"
  using assms mark_connected_try_frame [OF assms]
  by (simp add: mark_connected_def now_iso_def)

theorem mark_connected_fallback_witness:
  "mark_connected (\<lambda>q db. (Inl APIError, db)) ''agent1'' (Some ''sess-1'') (Some ''1.0'') None
      \<lparr>backend = (), clock = (\<lambda>i. 100 + i), reads = 0\<rparr> =
     (\<lparr>display_name = PStr ''agent1'', status = PStr ''connected'', client_id = PStr ''sess-1'',
       last_seen = PTime 100, first_seen = PTime 101,
       last_seen_version = PStr ''1.0'', capabilities = PDict []\<rparr>,
      \<lparr>backend = (), clock = (\<lambda>i. 100 + i), reads = 2\<rparr>)"
proof -
  have "mark_connected_try (\<lambda>q db. (Inl APIError, db)) ''agent1'' (Some ''sess-1'') (Some ''1.0'') None
      \<lparr>backend = (), clock = (\<lambda>i. 100 + i), reads = 0\<rparr> =
      (Inl APIError, \<lparr>backend = (), clock = (\<lambda>i. 100 + i), reads = 0\<rparr>)"
    by (simp add: mark_connected_try_def execute_def)
  from mark_connected_fallback [OF this] show ?thesis
    by (simp add: opt_str_def caps_or_empty_def numeral_2_eq_2)
qed

text \<open>
  Claim C6. No operation hands a store error to its caller; each returns its own default
  instead. Whatever the store client: when the update of \<^verbatim>\<open>mark_disconnected\<close> raises,
  or its update returns no row and its insert raises, the result is \<open>None\<close>; when the
  select of \<^verbatim>\<open>list_all\<close> raises, the result is the empty list; when the select of
  \<^verbatim>\<open>exists\<close> raises, the result is \<open>False\<close>.
\<close>

theorem store_errors_are_swallowed:
  "(fst (execute supabase
           (sb_eq ''display_name'' (PStr dn)
              (sb_update (disconnected_update (fst (now_iso w))) ''mcp_clients'')) (snd (now_iso w))) = Inl e
      \<longrightarrow> fst (mark_disconnected supabase dn w) = None) \<and>
   (execute supabase
           (sb_eq ''display_name'' (PStr dn)
              (sb_update (disconnected_update (fst (now_iso w))) ''mcp_clients'')) (snd (now_iso w))
        = (Inr (Response []), w2)
      \<and> fst (execute supabase (sb_insert (disconnected_insert dn (fst (now_iso w))) ''mcp_clients'') w2) = Inl e
      \<longrightarrow> fst (mark_disconnected supabase dn w) = None) \<and>
   (fst (execute supabase (sb_order ''last_seen'' True (sb_select ''*'' ''mcp_clients'')) w) = Inl e
      \<longrightarrow> fst (list_all_clients supabase w) = []) \<and>
   (fst (execute supabase
           (sb_limit 1 (sb_eq ''display_name'' (PStr dn) (sb_select ''display_name'' ''mcp_clients''))) w) = Inl e
      \<longrightarrow> fst (exists supabase dn w) = False)"
  by (auto simp: mark_disconnected_def mark_disconnected_try_def list_all_clients_def list_all_try_def
        exists_def exists_try_def Let_def split: prod.splits sum.splits list.splits)

theorem store_errors_are_swallowed_witness:
  "fst (mark_disconnected (table_client Map.empty) ''agent1'' (init_world [] [True] (\<lambda>i. 100 + i))) = None \<and>
   fst (mark_disconnected (table_client Map.empty) ''agent1'' (init_world [] [False, True] (\<lambda>i. 100 + i))) = None \<and>
   fst (list_all_clients (table_client Map.empty) (init_world [] [True] (\<lambda>i. 100 + i))) = [] \<and>
   fst (exists (table_client Map.empty) ''agent1'' (init_world [] [True] (\<lambda>i. 100 + i))) = False"
proof -
  let ?c = "table_client Map.empty"
  let ?w = "init_world [] [True] (\<lambda>i. 100 + i)"
  let ?v = "init_world [] [False, True] (\<lambda>i. 100 + i)"
  have a: "fst (execute ?c
           (sb_eq ''display_name'' (PStr ''agent1'')
              (sb_update (disconnected_update (fst (now_iso ?w))) ''mcp_clients'')) (snd (now_iso ?w))) = Inl APIError"
    by (simp add: execute_table now_iso_def init_world_def next_fault_def)
  have b: "execute ?c
           (sb_eq ''display_name'' (PStr ''agent1'')
              (sb_update (disconnected_update (fst (now_iso ?v))) ''mcp_clients'')) (snd (now_iso ?v))
        = (Inr (Response []), \<lparr>backend = \<lparr>rows = [], faults = [True]\<rparr>, clock = (\<lambda>i. 100 + i), reads = 1\<rparr>)
      \<and> fst (execute ?c (sb_insert (disconnected_insert ''agent1'' (fst (now_iso ?v))) ''mcp_clients'')
              \<lparr>backend = \<lparr>rows = [], faults = [True]\<rparr>, clock = (\<lambda>i. 100 + i), reads = 1\<rparr>) = Inl APIError"
    by (simp add: execute_table now_iso_def init_world_def next_fault_def answer_update_by_name touch_def)
  have c: "fst (execute ?c (sb_order ''last_seen'' True (sb_select ''*'' ''mcp_clients'')) ?w) = Inl APIError"
    by (simp add: execute_table init_world_def next_fault_def)
  have d: "fst (execute ?c
           (sb_limit 1 (sb_eq ''display_name'' (PStr ''agent1'') (sb_select ''display_name'' ''mcp_clients''))) ?w) = Inl APIError"
    by (simp add: execute_table init_world_def next_fault_def)
  from a b c d
    store_errors_are_swallowed [of ?c "''agent1''" ?w APIError]
    store_errors_are_swallowed [of ?c "''agent1''" ?v APIError
       "\<lparr>backend = \<lparr>rows = [], faults = [True]\<rparr>, clock = (\<lambda>i. 100 + i), reads = 1\<rparr>"]
  show ?thesis by blast
qed

section \<open>What the operations keep of the stored rows\<close>

lemma has_name_merge: "u ''display_name'' = None \<Longrightarrow> has_name n (r ++ u) = has_name n r"
  by (simp add: has_name_def map_add_def)

lemma has_name_fill: "p ''display_name'' = Some (PStr dn) \<Longrightarrow> has_name n (d ++ p) = (n = dn)"
  by (auto simp: has_name_def map_add_def)

lemma filter_touch:
  "u ''display_name'' = None \<Longrightarrow>
   filter (has_name n) (touch dn u rs) = touch dn u (filter (has_name n) rs)"
  by (induction rs) (simp_all add: touch_def has_name_merge)

lemma length_touch [simp]: "length (touch dn u rs) = length rs"
  by (simp add: touch_def)

lemma touch_column:
  "u c = None \<Longrightarrow> map (\<lambda>r. r c) (touch dn u rs) = map (\<lambda>r. r c) rs"
  by (induction rs) (simp_all add: touch_def map_add_def)

lemma run_op_first_seen:
  "prefix (map (\<lambda>r. (r ''display_name'', r ''first_seen'')) (rows (backend w)))
          (map (\<lambda>r. (r ''display_name'', r ''first_seen'')) (rows (backend (run_op d op w))))"
proof -
  let ?f = "\<lambda>r::row. (r ''display_name'', r ''first_seen'')"
  have col: "map ?f (touch dn u rs) = map ?f rs"
    if "u ''display_name'' = None" "u ''first_seen'' = None" for dn u rs
    using that by (induction rs) (simp_all add: touch_def map_add_def)
  from run_op_rows [of d op w] consider
      (same) "rows (backend (run_op d op w)) = rows (backend w)"
    | (merged) dn u where "u ''display_name'' = None" "u ''first_seen'' = None"
        "rows (backend (run_op d op w)) = touch dn u (rows (backend w))"
    | (added) p where "rows (backend (run_op d op w)) = rows (backend w) @ [d ++ p]"
    by blast
  then show ?thesis
  proof cases
    case same
    then show ?thesis by simp
  next
    case merged
    then show ?thesis using col [OF merged(1) merged(2)] by simp
  next
    case added
    then show ?thesis by simp
  qed
qed

lemma run_ops_first_seen:
  "prefix (map (\<lambda>r. (r ''display_name'', r ''first_seen'')) (rows (backend w)))
          (map (\<lambda>r. (r ''display_name'', r ''first_seen'')) (rows (backend (run_ops d ops w))))"
proof (induction ops arbitrary: w)
  case Nil
  show ?case by (simp add: run_ops_def)
next
  case (Cons op ops)
  have step: "run_ops d (op # ops) w = run_ops d ops (run_op d op w)"
    by (simp add: run_ops_def)
  show ?case
    unfolding step
    by (rule prefix_order.trans [OF run_op_first_seen [of w d op] Cons.IH [of "run_op d op w"]])
qed

lemma run_op_unique:
  assumes "length (stored n w) \<le> 1"
  shows "length (stored n (run_op d op w)) \<le> 1"
proof -
  from run_op_rows [of d op w] consider
      (same) "rows (backend (run_op d op w)) = rows (backend w)"
    | (merged) dn u where "u ''display_name'' = None"
        "rows (backend (run_op d op w)) = touch dn u (rows (backend w))"
    | (added) dn p where "stored dn w = []" "p ''display_name'' = Some (PStr dn)"
        "rows (backend (run_op d op w)) = rows (backend w) @ [d ++ p]"
    by blast
  then show ?thesis
  proof cases
    case same
    with assms show ?thesis by (simp add: stored_def)
  next
    case merged
    with assms show ?thesis by (simp add: stored_def filter_touch)
  next
    case added
    with assms show ?thesis by (cases "n = dn") (simp_all add: stored_def has_name_fill)
  qed
qed

lemma run_ops_unique:
  "length (stored n w) \<le> 1 \<Longrightarrow> length (stored n (run_ops d ops w)) \<le> 1"
proof (induction ops arbitrary: w)
  case Nil
  then show ?case by (simp add: run_ops_def)
next
  case (Cons op ops)
  have "run_ops d (op # ops) w = run_ops d ops (run_op d op w)"
    by (simp add: run_ops_def)
  with Cons.IH [OF run_op_unique [OF Cons.prems]] show ?case by simp
qed

lemma no_fault_next: "True \<notin> set fs \<Longrightarrow> \<not> next_fault fs"
  by (cases fs) (auto simp: next_fault_def)

lemma no_fault_tl: "True \<notin> set fs \<Longrightarrow> True \<notin> set (tl fs)"
  by (cases fs) auto

lemma touch_stored_same:
  "u ''display_name'' = None \<Longrightarrow>
   filter (has_name dn) (touch dn u rs) = map (\<lambda>r. r ++ u) (filter (has_name dn) rs)"
  by (induction rs) (simp_all add: touch_def has_name_merge)

lemma touch_stored_other:
  "u ''display_name'' = None \<Longrightarrow> n \<noteq> dn \<Longrightarrow>
   filter (has_name n) (touch dn u rs) = filter (has_name n) rs"
  by (induction rs) (auto simp: touch_def has_name_merge has_name_def)

lemma model_name: "(display_name (to_model r) = PStr n) = has_name n r"
  by (auto simp: to_model_def get_def has_name_def split: option.splits)

lemma filter_models:
  "filter (\<lambda>m. display_name m = PStr n) (map to_model rs) = map to_model (filter (has_name n) rs)"
  by (induction rs) (simp_all add: model_name)

lemma sortable_permuted:
  "list_all P (sort_key k rs) = list_all P rs"
  by (simp add: list_all_iff)

lemma strings_comparable:
  "list_all (\<lambda>r. is_str (sort_name r)) rs \<Longrightarrow> list_all (\<lambda>r. list_all (comparable r) rs) rs"
  by (simp add: list_all_iff comparable_def)

lemma list_all_table_ok:
  assumes "\<not> next_fault (faults (backend w))"
      and "list_all (\<lambda>r. is_str (sort_name r)) (rows (backend w))"
  shows "list_all_clients (table_client d) w =
           (map to_model (sort_key row_key (rev (sort_key (order_key ''last_seen'') (rows (backend w))))),
            w\<lparr>backend := (backend w)\<lparr>faults := tl (faults (backend w))\<rparr>\<rparr>)"
proof -
  let ?ys = "rev (sort_key (order_key ''last_seen'') (rows (backend w)))"
  from assms(2) have "list_all (\<lambda>r. is_str (sort_name r)) ?ys"
    by (simp add: sortable_permuted)
  then have "list_all (\<lambda>r. list_all (comparable r) ?ys) ?ys"
    by (rule strings_comparable)
  then have "sort_rows ?ys = Inr (sort_key row_key ?ys)"
    by (simp only: sort_rows_def if_True)
  with assms(1) show ?thesis
    by (simp add: list_all_clients_def list_all_try_table Let_def)
qed

lemma exists_table_ok:
  assumes "\<not> next_fault (faults (backend w))"
  shows "fst (exists (table_client d) dn w) = (stored dn w \<noteq> [])"
  using assms by (simp add: exists_def exists_try_table stored_def Let_def)

lemma listed_by_name:
  assumes "\<not> next_fault (faults (backend w))"
      and "list_all (\<lambda>r. is_str (sort_name r)) (rows (backend w))"
      and "stored n w = [r]"
  shows "filter (\<lambda>m. display_name m = PStr n) (fst (list_all_clients (table_client d) w)) = [to_model r]"
proof -
  have "filter (has_name n) (sort_key row_key (rev (sort_key (order_key ''last_seen'') (rows (backend w)))))
        = sort_key row_key (rev (sort_key (order_key ''last_seen'') (filter (has_name n) (rows (backend w)))))"
    by (simp add: filter_sort rev_filter [symmetric])
  also have "\<dots> = [r]" using assms(3) by (simp add: stored_def)
  finally show ?thesis
    by (simp add: list_all_table_ok [OF assms(1,2)] filter_models)
qed

lemma get_merge_absent: "u c = None \<Longrightarrow> get (r ++ u) c = get r c"
  by (simp add: get_def map_add_def)

lemma get_merge_present: "u c = Some v \<Longrightarrow> get (r ++ u) c = v"
  by (simp add: get_def map_add_def)

lemma sort_name_merge: "u ''display_name'' = None \<Longrightarrow> sort_name (r ++ u) = sort_name r"
  by (simp add: sort_name_def get_or_def map_add_def)

lemma sort_name_fill: "p ''display_name'' = Some (PStr dn) \<Longrightarrow> sort_name (d ++ p) = PStr dn"
  by (simp add: sort_name_def get_or_def map_add_def)

lemma sortable_touch:
  "u ''display_name'' = None \<Longrightarrow>
   list_all (\<lambda>r. is_str (sort_name r)) (touch dn u rs) = list_all (\<lambda>r. is_str (sort_name r)) rs"
  by (induction rs) (simp_all add: touch_def sort_name_merge)

text \<open>The world after a \<^verbatim>\<open>mark_connected\<close> that met no fault.\<close>

lemma mark_connected_after:
  assumes "\<not> next_fault (faults (backend w))" "\<not> next_fault (tl (faults (backend w)))"
  shows "faults (backend (snd (mark_connected (table_client d) dn cid ver cps w))) = tl (tl (faults (backend w)))"
    and "clock (snd (mark_connected (table_client d) dn cid ver cps w)) = clock w" and "reads (snd (mark_connected (table_client d) dn cid ver cps w)) = Suc (reads w)"
    and "stored dn w = [] \<Longrightarrow> stored dn (snd (mark_connected (table_client d) dn cid ver cps w)) = [d ++ connected_insert dn (PTime (clock w (reads w))) cid ver cps]"
    and "stored dn w \<noteq> [] \<Longrightarrow>
           stored dn (snd (mark_connected (table_client d) dn cid ver cps w)) = map (\<lambda>r. r ++ connected_update (PTime (clock w (reads w))) cid ver cps) (stored dn w)"
    and "list_all (\<lambda>r. is_str (sort_name r)) (rows (backend w)) \<Longrightarrow>
           list_all (\<lambda>r. is_str (sort_name r)) (rows (backend (snd (mark_connected (table_client d) dn cid ver cps w))))"
proof -
  note ok = mark_connected_table_ok [OF assms(1,2), of d dn cid ver cps]
  show "faults (backend (snd (mark_connected (table_client d) dn cid ver cps w))) = tl (tl (faults (backend w)))"
    by (simp add: ok Let_def split: list.splits)
  show "clock (snd (mark_connected (table_client d) dn cid ver cps w)) = clock w"
    by (simp add: ok Let_def split: list.splits)
  show "reads (snd (mark_connected (table_client d) dn cid ver cps w)) = Suc (reads w)"
    by (simp add: ok Let_def split: list.splits)
  show "stored dn (snd (mark_connected (table_client d) dn cid ver cps w)) = [d ++ connected_insert dn (PTime (clock w (reads w))) cid ver cps]" if "stored dn w = []"
    using that insert_names(1) [of dn "PTime (clock w (reads w))" cid ver cps]
    by (simp add: ok Let_def stored_def has_name_fill)
  show "stored dn (snd (mark_connected (table_client d) dn cid ver cps w)) = map (\<lambda>r. r ++ connected_update (PTime (clock w (reads w))) cid ver cps) (stored dn w)"
    if "stored dn w \<noteq> []"
    using that connected_update_keys(1) [of "PTime (clock w (reads w))" cid ver cps]
    by (simp add: ok Let_def stored_def touch_stored_same split: list.splits)
  show "list_all (\<lambda>r. is_str (sort_name r)) (rows (backend (snd (mark_connected (table_client d) dn cid ver cps w))))"
    if "list_all (\<lambda>r. is_str (sort_name r)) (rows (backend w))"
    using that connected_update_keys(1) [of "PTime (clock w (reads w))" cid ver cps] insert_names(1) [of dn "PTime (clock w (reads w))" cid ver cps]
    by (simp add: ok Let_def sortable_touch sort_name_fill split: list.splits)
qed

lemma mark_disconnected_after:
  assumes "\<not> next_fault (faults (backend w))" "\<not> next_fault (tl (faults (backend w)))"
      and "stored dn w = []"
  shows "fst (mark_disconnected (table_client d) dn w) = Some (to_model (d ++ disconnected_insert dn (PTime (clock w (reads w)))))"
    and "faults (backend (snd (mark_disconnected (table_client d) dn w))) = tl (tl (faults (backend w)))"
    and "stored dn (snd (mark_disconnected (table_client d) dn w)) = [d ++ disconnected_insert dn (PTime (clock w (reads w)))]"
    and "list_all (\<lambda>r. is_str (sort_name r)) (rows (backend w)) \<Longrightarrow>
           list_all (\<lambda>r. is_str (sort_name r)) (rows (backend (snd (mark_disconnected (table_client d) dn w))))"
proof -
  note ok = mark_disconnected_table_ok [OF assms(1,2), of d dn]
  show "fst (mark_disconnected (table_client d) dn w) = Some (to_model (d ++ disconnected_insert dn (PTime (clock w (reads w)))))"
    using assms(3) by (simp add: ok Let_def)
  show "faults (backend (snd (mark_disconnected (table_client d) dn w))) = tl (tl (faults (backend w)))"
    using assms(3) by (simp add: ok Let_def)
  show "stored dn (snd (mark_disconnected (table_client d) dn w)) = [d ++ disconnected_insert dn (PTime (clock w (reads w)))]"
    using assms(3) insert_names(2) [of dn "PTime (clock w (reads w))"]
    by (simp add: ok Let_def stored_def has_name_fill)
  show "list_all (\<lambda>r. is_str (sort_name r)) (rows (backend (snd (mark_disconnected (table_client d) dn w))))"
    if "list_all (\<lambda>r. is_str (sort_name r)) (rows (backend w))"
    using that assms(3) insert_names(2) [of dn "PTime (clock w (reads w))"]
    by (simp add: ok Let_def sort_name_fill)
qed

section \<open>The claims about the stored records\<close>

text \<open>
  Claim C7. \<^verbatim>\<open>first_seen\<close> is set once, when a record is created, and no later
  \<^verbatim>\<open>mark_connected\<close> or \<^verbatim>\<open>mark_disconnected\<close> changes it: over the reference store,
  after any sequence of operations under any plan of faults, every row that was stored
  is still at its place with the name and the \<^verbatim>\<open>first_seen\<close> it had (new rows are
  only added behind them). The update payloads of both operations have no
  \<^verbatim>\<open>first_seen\<close> entry; both insert payloads set it to the time of the call.
\<close>

theorem first_seen_never_modified:
  "prefix (map (\<lambda>r. (r ''display_name'', r ''first_seen'')) (rows (backend w)))
          (map (\<lambda>r. (r ''display_name'', r ''first_seen'')) (rows (backend (run_ops d ops w))))
   \<and> connected_update now cid ver cps ''first_seen'' = None
   \<and> disconnected_update now ''first_seen'' = None
   \<and> connected_insert dn now cid ver cps ''first_seen'' = Some now
   \<and> disconnected_insert dn now ''first_seen'' = Some now"
  using run_ops_first_seen [of w d ops] connected_update_keys(2) [of now cid ver cps]
    disconnected_update_keys(2) [of now]
  by (simp add: connected_insert_def disconnected_insert_def)

text \<open>
  Claim C9. Display names stay unique: when at most one row is stored under a name, then
  after any sequence of operations, under any plan of faults, at most one row is stored
  under it. In particular, when the store does not fail and every stored name is a
  string, \<^verbatim>\<open>list_all\<close> after \<^verbatim>\<open>mark_connected\<close> returns exactly one record of that
  name, and its status is \<open>connected\<close>.
\<close>

theorem display_name_unique:
  assumes "length (stored n w) \<le> 1"
  shows "length (stored n (run_ops d ops w)) \<le> 1 \<and>
         (True \<notin> set (faults (backend w)) \<and>
          list_all (\<lambda>r. is_str (sort_name r)) (rows (backend w)) \<longrightarrow>
            (\<exists>m. filter (\<lambda>m. display_name m = PStr n)
                    (fst (list_all_clients (table_client d)
                           (snd (mark_connected (table_client d) n cid ver cps w)))) = [m]
                 \<and> status m = PStr ''connected''))"
proof (intro conjI impI)
  show "length (stored n (run_ops d ops w)) \<le> 1"
    by (rule run_ops_unique [OF assms])
next
  assume h: "True \<notin> set (faults (backend w)) \<and>
             list_all (\<lambda>r. is_str (sort_name r)) (rows (backend w))"
  let ?w' = "snd (mark_connected (table_client d) n cid ver cps w)"
  let ?now = "PTime (clock w (reads w))"
  from h have nf: "\<not> next_fault (faults (backend w))" "\<not> next_fault (tl (faults (backend w)))"
    and nf': "\<not> next_fault (tl (tl (faults (backend w))))"
    by (simp_all add: no_fault_next no_fault_tl)
  note after = mark_connected_after [OF nf, where dn=n and d=d and cid=cid and ver=ver and cps=cps]
  from nf' after(1) have ok': "\<not> next_fault (faults (backend ?w'))" by simp
  from h after(6) have srt: "list_all (\<lambda>r. is_str (sort_name r)) (rows (backend ?w'))" by simp
  have "\<exists>r. stored n ?w' = [r] \<and> get r ''status'' = PStr ''connected''"
  proof (cases "stored n w")
    case Nil
    then show ?thesis
      using after(4) by (simp add: get_def map_add_def connected_insert_def)
  next
    case (Cons r rs)
    with assms have "stored n w = [r]" by simp
    then show ?thesis
      using after(5)
      by (simp add: get_def map_add_def connected_update_def Let_def split: option.splits)
  qed
  then obtain r where r: "stored n ?w' = [r]" "get r ''status'' = PStr ''connected''" by blast
  from listed_by_name [OF ok' srt r(1), of d] r(2)
  show "\<exists>m. filter (\<lambda>m. display_name m = PStr n) (fst (list_all_clients (table_client d) ?w')) = [m]
            \<and> status m = PStr ''connected''"
    by (simp add: to_model_def)
qed

theorem display_name_unique_witness:
  "length (stored ''agent1'' (init_world [] [] (\<lambda>i. 100 + i))) \<le> 1 \<and>
   length (stored ''agent1''
     (run_ops Map.empty
        [Connect ''agent1'' (Some ''sess-1'') (Some ''1.0'') None, Disconnect ''agent1'',
         Connect ''agent1'' None None None, ListAll, Exists ''agent1'']
        (init_world [] [] (\<lambda>i. 100 + i)))) \<le> 1 \<and>
   (\<exists>m. filter (\<lambda>m. display_name m = PStr ''agent1'')
          (fst (list_all_clients (table_client Map.empty)
                 (snd (mark_connected (table_client Map.empty) ''agent1'' None None None
                        (init_world [] [] (\<lambda>i. 100 + i)))))) = [m]
        \<and> status m = PStr ''connected'')"
proof -
  let ?w = "init_world [] [] (\<lambda>i. 100 + i)"
  have h: "length (stored ''agent1'' ?w) \<le> 1"
    by (simp add: stored_def init_world_def)
  have g: "True \<notin> set (faults (backend ?w)) \<and>
           list_all (\<lambda>r. is_str (sort_name r)) (rows (backend ?w))"
    by (simp add: init_world_def)
  from display_name_unique [OF h, of Map.empty _ None None None] g h show ?thesis
    by blast
qed

text \<open>The end-to-end example of the specification, evaluated.\<close>

lemma end_to_end_example:
  "fst (list_all_clients (table_client Map.empty)
     (run_ops Map.empty [Connect ''agent1'' (Some ''sess-1'') (Some ''1.0'') None, Disconnect ''agent1'']
        (init_world [] [] (\<lambda>i. 100 + i)))) =
   [\<lparr>display_name = PStr ''agent1'', status = PStr ''disconnected'', client_id = PStr ''sess-1'',
     last_seen = PTime 101, first_seen = PTime 100, last_seen_version = PStr ''1.0'',
     capabilities = PDict []\<rparr>]"
  by (simp add: run_ops_def init_world_def mark_connected_table_ok mark_disconnected_table_ok
        list_all_table_ok next_fault_def stored_def has_name_def Let_def touch_def
        connected_insert_def disconnected_update_def to_model_def get_def sort_name_def get_or_def
        opt_str_def caps_or_empty_def)

text \<open>
  Claim C4. For a display name with no stored row, over a store that does not fail,
  \<^verbatim>\<open>mark_disconnected\<close> is not a no-op: it returns a record of that name with status
  \<open>disconnected\<close> whose \<^verbatim>\<open>first_seen\<close> and \<^verbatim>\<open>last_seen\<close> are both the time of the
  call, and stores it; afterwards \<^verbatim>\<open>exists\<close> answers \<open>True\<close> for the name and
  \<^verbatim>\<open>list_all\<close> (every stored name being a string) returns the record.
\<close>

theorem mark_disconnected_creates:
  assumes "stored dn w = []"
      and "True \<notin> set (faults (backend w))"
      and "list_all (\<lambda>r. is_str (sort_name r)) (rows (backend w))"
  shows "\<exists>m. fst (mark_disconnected (table_client d) dn w) = Some m \<and>
             display_name m = PStr dn \<and> status m = PStr ''disconnected'' \<and>
             first_seen m = PTime (clock w (reads w)) \<and> last_seen m = first_seen m \<and>
             stored dn (snd (mark_disconnected (table_client d) dn w)) \<noteq> [] \<and>
             fst (exists (table_client d) dn (snd (mark_disconnected (table_client d) dn w))) \<and>
             m \<in> set (fst (list_all_clients (table_client d)
                              (snd (mark_disconnected (table_client d) dn w))))"
proof -
  let ?w' = "snd (mark_disconnected (table_client d) dn w)"
  let ?r = "d ++ disconnected_insert dn (PTime (clock w (reads w)))"
  from assms(2) have nf: "\<not> next_fault (faults (backend w))" "\<not> next_fault (tl (faults (backend w)))"
    and nf': "\<not> next_fault (tl (tl (faults (backend w))))"
    by (simp_all add: no_fault_next no_fault_tl)
  note after = mark_disconnected_after [OF nf assms(1), where d=d]
  from nf' after(2) have ok': "\<not> next_fault (faults (backend ?w'))" by simp
  from assms(3) after(4) have srt: "list_all (\<lambda>r. is_str (sort_name r)) (rows (backend ?w'))" by simp
  have fields: "display_name (to_model ?r) = PStr dn" "status (to_model ?r) = PStr ''disconnected''"
    "first_seen (to_model ?r) = PTime (clock w (reads w))"
    "last_seen (to_model ?r) = first_seen (to_model ?r)"
    by (simp_all add: to_model_def get_def map_add_def disconnected_insert_def)
  have ex: "fst (exists (table_client d) dn ?w')"
    using after(3) by (simp add: exists_table_ok [OF ok'])
  have "filter (\<lambda>m. display_name m = PStr dn) (fst (list_all_clients (table_client d) ?w')) = [to_model ?r]"
    by (rule listed_by_name [OF ok' srt after(3)])
  then have "to_model ?r \<in> set (filter (\<lambda>m. display_name m = PStr dn) (fst (list_all_clients (table_client d) ?w')))"
    by simp
  then have listed: "to_model ?r \<in> set (fst (list_all_clients (table_client d) ?w'))"
    by simp
  from after(1) after(3) fields ex listed show ?thesis by simp
qed

theorem mark_disconnected_creates_witness:
  "stored ''ghost'' (init_world [] [] (\<lambda>i. 100 + i)) = [] \<and>
   (\<exists>m. fst (mark_disconnected (table_client Map.empty) ''ghost'' (init_world [] [] (\<lambda>i. 100 + i))) = Some m \<and>
        display_name m = PStr ''ghost'' \<and> status m = PStr ''disconnected'' \<and>
        first_seen m = PTime 100 \<and> last_seen m = first_seen m \<and>
        fst (exists (table_client Map.empty) ''ghost''
              (snd (mark_disconnected (table_client Map.empty) ''ghost'' (init_world [] [] (\<lambda>i. 100 + i))))) \<and>
        m \<in> set (fst (list_all_clients (table_client Map.empty)
              (snd (mark_disconnected (table_client Map.empty) ''ghost'' (init_world [] [] (\<lambda>i. 100 + i)))))))"
proof -
  let ?w = "init_world [] [] (\<lambda>i. 100 + i)"
  have a: "stored ''ghost'' ?w = []" by (simp add: stored_def init_world_def)
  have b: "True \<notin> set (faults (backend ?w))" by (simp add: init_world_def)
  have c: "list_all (\<lambda>r. is_str (sort_name r)) (rows (backend ?w))" by (simp add: init_world_def)
  have d: "clock ?w (reads ?w) = 100" by (simp add: init_world_def)
  from mark_disconnected_creates [OF a b c, of Map.empty] a d show ?thesis
    by auto
qed

text \<open>
  Claim C10, as amended. When \<^verbatim>\<open>mark_disconnected\<close> creates the record of an unknown
  display name, its insert payload has no \<^verbatim>\<open>client_id\<close>, \<^verbatim>\<open>last_seen_version\<close> or
  \<^verbatim>\<open>capabilities\<close> entry, whereas the insert payload of \<^verbatim>\<open>mark_connected\<close> sets
  \<^verbatim>\<open>capabilities\<close> to the empty document when none is given. Over the reference store
  without a fault, whatever the column defaults of the table: the row stored is the
  payload filled from those defaults and the record returned is that row, so that its
  client id, version and capabilities are the table's defaults for these columns
  (\<open>None\<close> where the table declares none), while \<^verbatim>\<open>mark_connected\<close> at the same place
  returns the empty document as capabilities. And for any store client whose update and
  insert return no row, the record is built from the payload alone, with the three
  fields \<open>None\<close>.
\<close>

theorem mark_disconnected_creates_from_payload:
  "disconnected_insert dn now ''client_id'' = None \<and>
   disconnected_insert dn now ''last_seen_version'' = None \<and>
   disconnected_insert dn now ''capabilities'' = None \<and>
   connected_insert dn now cid ver None ''capabilities'' = Some (PDict []) \<and>
   (stored dn w = [] \<and> \<not> next_fault (faults (backend w)) \<and> \<not> next_fault (tl (faults (backend w))) \<longrightarrow>
      rows (backend (snd (mark_disconnected (table_client d) dn w))) =
        rows (backend w) @ [d ++ disconnected_insert dn (PTime (clock w (reads w)))] \<and>
      fst (mark_disconnected (table_client d) dn w) =
        Some (to_model (d ++ disconnected_insert dn (PTime (clock w (reads w))))) \<and>
      (\<exists>m. fst (mark_disconnected (table_client d) dn w) = Some m \<and>
           client_id m = get d ''client_id'' \<and>
           last_seen_version m = get d ''last_seen_version'' \<and>
           capabilities m = get d ''capabilities'') \<and>
      capabilities (fst (mark_connected (table_client d) dn None None None w)) = PDict []) \<and>
   (execute supabase
        (sb_eq ''display_name'' (PStr dn)
           (sb_update (disconnected_update (fst (now_iso v))) ''mcp_clients'')) (snd (now_iso v))
      = (Inr (Response []), v2) \<and>
    execute supabase (sb_insert (disconnected_insert dn (fst (now_iso v))) ''mcp_clients'') v2
      = (Inr (Response []), v3) \<longrightarrow>
      mark_disconnected supabase dn v =
        (Some \<lparr>display_name = PStr dn, status = PStr ''disconnected'', client_id = PNone,
               last_seen = fst (now_iso v), first_seen = fst (now_iso v),
               last_seen_version = PNone, capabilities = PNone\<rparr>, v3))"
proof (intro conjI impI)
  show "disconnected_insert dn now ''client_id'' = None"
    "disconnected_insert dn now ''last_seen_version'' = None"
    "disconnected_insert dn now ''capabilities'' = None"
    by (simp_all add: disconnected_insert_def)
  show "connected_insert dn now cid ver None ''capabilities'' = Some (PDict [])"
    by (simp add: connected_insert_def caps_or_empty_def)
next
  assume h: "stored dn w = [] \<and> \<not> next_fault (faults (backend w)) \<and>
             \<not> next_fault (tl (faults (backend w)))"
  then have nf: "\<not> next_fault (faults (backend w))" "\<not> next_fault (tl (faults (backend w)))"
    and no: "stored dn w = []" by simp_all
  let ?r = "d ++ disconnected_insert dn (PTime (clock w (reads w)))"
  from no show "rows (backend (snd (mark_disconnected (table_client d) dn w))) = rows (backend w) @ [?r]"
    by (simp add: mark_disconnected_table_ok [OF nf] Let_def)
  show res: "fst (mark_disconnected (table_client d) dn w) = Some (to_model ?r)"
    by (rule mark_disconnected_after(1) [OF nf no])
  have "client_id (to_model ?r) = get d ''client_id'' \<and>
        last_seen_version (to_model ?r) = get d ''last_seen_version'' \<and>
        capabilities (to_model ?r) = get d ''capabilities''"
    by (simp add: to_model_def get_def map_add_def disconnected_insert_def)
  with res show "\<exists>m. fst (mark_disconnected (table_client d) dn w) = Some m \<and>
           client_id m = get d ''client_id'' \<and>
           last_seen_version m = get d ''last_seen_version'' \<and>
           capabilities m = get d ''capabilities''"
    by simp
  from no show "capabilities (fst (mark_connected (table_client d) dn None None None w)) = PDict []"
    by (simp add: mark_connected_table_ok [OF nf] Let_def to_model_def get_def map_add_def
          connected_insert_def caps_or_empty_def)
next
  assume h: "execute supabase
        (sb_eq ''display_name'' (PStr dn)
           (sb_update (disconnected_update (fst (now_iso v))) ''mcp_clients'')) (snd (now_iso v))
      = (Inr (Response []), v2) \<and>
    execute supabase (sb_insert (disconnected_insert dn (fst (now_iso v))) ''mcp_clients'') v2
      = (Inr (Response []), v3)"
  obtain now v1 where nv: "now_iso v = (now, v1)" by (cases "now_iso v")
  from h nv have e1: "execute supabase
        (sb_eq ''display_name'' (PStr dn) (sb_update (disconnected_update now) ''mcp_clients'')) v1
      = (Inr (Response []), v2)"
    and e2: "execute supabase (sb_insert (disconnected_insert dn now) ''mcp_clients'') v2
      = (Inr (Response []), v3)"
    by simp_all
  have "mark_disconnected_try supabase dn v = (Inr (to_model (disconnected_insert dn now)), v3)"
    by (simp add: mark_disconnected_try_def nv e1 e2 Let_def)
  then show "mark_disconnected supabase dn v =
        (Some \<lparr>display_name = PStr dn, status = PStr ''disconnected'', client_id = PNone,
               last_seen = fst (now_iso v), first_seen = fst (now_iso v),
               last_seen_version = PNone, capabilities = PNone\<rparr>, v3)"
    by (simp add: mark_disconnected_def nv to_model_def get_def disconnected_insert_def)
qed

theorem mark_disconnected_creates_from_payload_witness:
  "stored ''ghost'' (init_world [connected_insert ''agent1'' (PTime 7) None None None] [] (\<lambda>i. 100 + i)) = [] \<and>
   (\<exists>m. fst (mark_disconnected (table_client spec_defaults) ''ghost'' (init_world [connected_insert ''agent1'' (PTime 7) None None None] [] (\<lambda>i. 100 + i))) = Some m \<and>
        client_id m = PNone \<and> last_seen_version m = PNone \<and> capabilities m = PDict []) \<and>
   length (rows (backend (snd (mark_disconnected (table_client spec_defaults) ''ghost'' (init_world [connected_insert ''agent1'' (PTime 7) None None None] [] (\<lambda>i. 100 + i)))))) = 2 \<and>
   capabilities (fst (mark_connected (table_client spec_defaults) ''ghost'' None None None (init_world [connected_insert ''agent1'' (PTime 7) None None None] [] (\<lambda>i. 100 + i)))) = PDict [] \<and>
   mark_disconnected (\<lambda>q db. (Inr (Response []), Suc db)) ''ghost''
          \<lparr>backend = 0, clock = (\<lambda>i. 100 + i), reads = 0\<rparr> =
     (Some \<lparr>display_name = PStr ''ghost'', status = PStr ''disconnected'', client_id = PNone,
            last_seen = PTime 100, first_seen = PTime 100,
            last_seen_version = PNone, capabilities = PNone\<rparr>,
      \<lparr>backend = 2, clock = (\<lambda>i. 100 + i), reads = 1\<rparr>)"
proof -
  let ?c = "\<lambda>(q::request) (db::nat). (Inr (Response []) :: error + response, Suc db)"
  let ?v = "\<lparr>backend = 0, clock = (\<lambda>i. 100 + i), reads = 0\<rparr> :: nat world"
  let ?v1 = "\<lparr>backend = 1, clock = (\<lambda>i. 100 + i), reads = 1\<rparr> :: nat world"
  let ?v2 = "\<lparr>backend = 2, clock = (\<lambda>i. 100 + i), reads = 1\<rparr> :: nat world"
  have a: "stored ''ghost'' (init_world [connected_insert ''agent1'' (PTime 7) None None None] [] (\<lambda>i. 100 + i)) = [] \<and> \<not> next_fault (faults (backend (init_world [connected_insert ''agent1'' (PTime 7) None None None] [] (\<lambda>i. 100 + i)))) \<and>
           \<not> next_fault (tl (faults (backend (init_world [connected_insert ''agent1'' (PTime 7) None None None] [] (\<lambda>i. 100 + i)))))"
    by (simp add: stored_def init_world_def next_fault_def has_name_def connected_insert_def)
  have b: "execute ?c
        (sb_eq ''display_name'' (PStr ''ghost'')
           (sb_update (disconnected_update (fst (now_iso ?v))) ''mcp_clients'')) (snd (now_iso ?v))
      = (Inr (Response []), ?v1) \<and>
    execute ?c (sb_insert (disconnected_insert ''ghost'' (fst (now_iso ?v))) ''mcp_clients'') ?v1
      = (Inr (Response []), ?v2)"
    by (simp add: execute_def now_iso_def)
  have c: "fst (now_iso ?v) = PTime 100" by (simp add: now_iso_def)
  have g: "get spec_defaults ''client_id'' = PNone" "get spec_defaults ''last_seen_version'' = PNone"
    "get spec_defaults ''capabilities'' = PDict []"
    by (simp_all add: get_def spec_defaults_def)
  have l: "length (rows (backend (init_world [connected_insert ''agent1'' (PTime 7) None None None] [] (\<lambda>i. 100 + i)))) = 1" by (simp add: init_world_def)
  note T = mark_disconnected_creates_from_payload
         [where dn="''ghost''" and w="(init_world [connected_insert ''agent1'' (PTime 7) None None None] [] (\<lambda>i. 100 + i))" and d=spec_defaults and supabase="?c" and v="?v"
            and ?v2.0="?v1" and ?v3.0="?v2" and now=PNone and cid=None and ver=None]
  from T a have table:
    "rows (backend (snd (mark_disconnected (table_client spec_defaults) ''ghost'' (init_world [connected_insert ''agent1'' (PTime 7) None None None] [] (\<lambda>i. 100 + i))))) =
       rows (backend (init_world [connected_insert ''agent1'' (PTime 7) None None None] [] (\<lambda>i. 100 + i))) @
       [spec_defaults ++ disconnected_insert ''ghost'' (PTime (clock (init_world [connected_insert ''agent1'' (PTime 7) None None None] [] (\<lambda>i. 100 + i)) (reads (init_world [connected_insert ''agent1'' (PTime 7) None None None] [] (\<lambda>i. 100 + i)))))]"
    "\<exists>m. fst (mark_disconnected (table_client spec_defaults) ''ghost'' (init_world [connected_insert ''agent1'' (PTime 7) None None None] [] (\<lambda>i. 100 + i))) = Some m \<and>
         client_id m = get spec_defaults ''client_id'' \<and>
         last_seen_version m = get spec_defaults ''last_seen_version'' \<and>
         capabilities m = get spec_defaults ''capabilities''"
    "capabilities (fst (mark_connected (table_client spec_defaults) ''ghost'' None None None (init_world [connected_insert ''agent1'' (PTime 7) None None None] [] (\<lambda>i. 100 + i)))) = PDict []"
    by blast+
  from T b have gen: "mark_disconnected ?c ''ghost'' ?v =
        (Some \<lparr>display_name = PStr ''ghost'', status = PStr ''disconnected'', client_id = PNone,
               last_seen = fst (now_iso ?v), first_seen = fst (now_iso ?v),
               last_seen_version = PNone, capabilities = PNone\<rparr>, ?v2)"
    by blast
  from table(1) l
  have len: "length (rows (backend (snd (mark_disconnected (table_client spec_defaults) ''ghost'' (init_world [connected_insert ''agent1'' (PTime 7) None None None] [] (\<lambda>i. 100 + i)))))) = 2"
    by simp
  from a table(2,3) gen len show ?thesis
    by (simp add: g c)
qed

text \<open>
  Claim C10 as stated says that the record created by \<^verbatim>\<open>mark_disconnected\<close> has no
  capabilities, and not the empty document. With the column defaults that the
  specification gives the table, the record created and returned has the empty
  document as capabilities.
\<close>

theorem mark_disconnected_capabilities_counterexample:
  "fst (mark_disconnected (table_client spec_defaults) ''ghost'' (init_world [] [] ((+) 100))) =
     Some \<lparr>display_name = PStr ''ghost'', status = PStr ''disconnected'', client_id = PNone,
           last_seen = PTime 100, first_seen = PTime 100,
           last_seen_version = PNone, capabilities = PDict []\<rparr> \<and>
   fst (mark_disconnected (table_client spec_defaults) ''ghost'' (init_world [] [] ((+) 100))) \<noteq>
     Some \<lparr>display_name = PStr ''ghost'', status = PStr ''disconnected'', client_id = PNone,
           last_seen = PTime 100, first_seen = PTime 100,
           last_seen_version = PNone, capabilities = PNone\<rparr>"
  by (simp add: mark_disconnected_table_ok init_world_def next_fault_def stored_def Let_def
        to_model_def get_def disconnected_insert_def spec_defaults_def)

section \<open>Partial updates and repeated connects\<close>

lemma connected_update_unsupplied:
  "connected_update now None ver cps ''client_id'' = None"
  "connected_update now cid None cps ''last_seen_version'' = None"
  "connected_update now cid ver None ''capabilities'' = None"
  by (simp_all add: connected_update_def Let_def split: option.splits)

lemma connected_update_status:
  "connected_update now cid ver cps ''status'' = Some (PStr ''connected'')"
  "connected_update now cid ver cps ''last_seen'' = Some now"
  by (simp_all add: connected_update_def Let_def split: option.splits)

lemma connected_update_supplied:
  "connected_update now (Some a) ver cps ''client_id'' = Some (PStr a)"
  by (simp add: connected_update_def Let_def split: option.splits)

text \<open>Under any plan of faults, a \<^verbatim>\<open>mark_connected\<close> of a stored name leaves the rows of
  that name alone or merges its update payload into each of them.\<close>

lemma mark_connected_stored:
  assumes "stored dn w \<noteq> []"
  shows "stored dn (snd (mark_connected (table_client d) dn cid ver cps w)) = stored dn w \<or>
         stored dn (snd (mark_connected (table_client d) dn cid ver cps w)) =
           map (\<lambda>r. r ++ connected_update (PTime (clock w (reads w))) cid ver cps) (stored dn w)"
proof (cases "next_fault (faults (backend w)) \<or> next_fault (tl (faults (backend w)))")
  case True
  then have "rows (backend (snd (mark_connected (table_client d) dn cid ver cps w))) = rows (backend w)"
    by (simp add: mark_connected_table_rows)
  then show ?thesis by (simp add: stored_def)
next
  case False
  then have nf: "\<not> next_fault (faults (backend w))" "\<not> next_fault (tl (faults (backend w)))"
    by simp_all
  from mark_connected_after(5) [OF nf assms, where d=d and cid=cid and ver=ver and cps=cps]
  show ?thesis by simp
qed

lemma column_kept:
  "u c = None \<Longrightarrow> map (\<lambda>r. get r c) (map (\<lambda>r. r ++ u) rs) = map (\<lambda>r. get r c) rs"
  by (simp add: get_merge_absent)

text \<open>
  Claim C1. \<^verbatim>\<open>mark_connected\<close> overwrites \<^verbatim>\<open>client_id\<close>, \<^verbatim>\<open>last_seen_version\<close> and
  \<^verbatim>\<open>capabilities\<close> only with a value that was supplied. Over the reference store, under
  any plan of faults: a call for a stored display name without a client id leaves the
  \<^verbatim>\<open>client_id\<close> of every row of that name as it was, and likewise the version and the
  capabilities when those are not supplied. In particular, over a store that does not
  fail, \<^verbatim>\<open>mark_connected(name, client_id=a)\<close> followed by
  \<^verbatim>\<open>mark_connected(name, client_id=None)\<close> returns a record with \<^verbatim>\<open>client_id\<close> \<open>a\<close>
  and leaves \<open>a\<close> stored.
\<close>

theorem mark_connected_keeps_unsupplied:
  "(stored dn w \<noteq> [] \<longrightarrow>
      map (\<lambda>r. get r ''client_id'')
          (stored dn (snd (mark_connected (table_client d) dn None ver cps w))) =
        map (\<lambda>r. get r ''client_id'') (stored dn w) \<and>
      map (\<lambda>r. get r ''last_seen_version'')
          (stored dn (snd (mark_connected (table_client d) dn cid None cps w))) =
        map (\<lambda>r. get r ''last_seen_version'') (stored dn w) \<and>
      map (\<lambda>r. get r ''capabilities'')
          (stored dn (snd (mark_connected (table_client d) dn cid ver None w))) =
        map (\<lambda>r. get r ''capabilities'') (stored dn w)) \<and>
   (True \<notin> set (faults (backend w)) \<longrightarrow>
      client_id (fst (mark_connected (table_client d) dn None ver' cps'
                        (snd (mark_connected (table_client d) dn (Some a) ver cps w)))) = PStr a \<and>
      stored dn (snd (mark_connected (table_client d) dn None ver' cps'
                        (snd (mark_connected (table_client d) dn (Some a) ver cps w)))) \<noteq> [] \<and>
      list_all (\<lambda>r. get r ''client_id'' = PStr a)
        (stored dn (snd (mark_connected (table_client d) dn None ver' cps'
                        (snd (mark_connected (table_client d) dn (Some a) ver cps w))))))"
proof (intro conjI impI)
  assume ex: "stored dn w \<noteq> []"
  show "map (\<lambda>r. get r ''client_id'')
          (stored dn (snd (mark_connected (table_client d) dn None ver cps w))) =
        map (\<lambda>r. get r ''client_id'') (stored dn w)"
    using mark_connected_stored [OF ex, of d None ver cps]
    by (auto simp: get_merge_absent connected_update_unsupplied)
  show "map (\<lambda>r. get r ''last_seen_version'')
          (stored dn (snd (mark_connected (table_client d) dn cid None cps w))) =
        map (\<lambda>r. get r ''last_seen_version'') (stored dn w)"
    using mark_connected_stored [OF ex, of d cid None cps]
    by (auto simp: get_merge_absent connected_update_unsupplied)
  show "map (\<lambda>r. get r ''capabilities'')
          (stored dn (snd (mark_connected (table_client d) dn cid ver None w))) =
        map (\<lambda>r. get r ''capabilities'') (stored dn w)"
    using mark_connected_stored [OF ex, of d cid ver None]
    by (auto simp: get_merge_absent connected_update_unsupplied)
next
  assume nofault: "True \<notin> set (faults (backend w))"
  let ?now = "PTime (clock w (reads w))"
  let ?w1 = "snd (mark_connected (table_client d) dn (Some a) ver cps w)"
  let ?now1 = "PTime (clock ?w1 (reads ?w1))"
  let ?u2 = "connected_update ?now1 None ver' cps'"
  let ?res = "mark_connected (table_client d) dn None ver' cps' ?w1"
  from nofault have nf: "\<not> next_fault (faults (backend w))" "\<not> next_fault (tl (faults (backend w)))"
    and nf2: "\<not> next_fault (tl (tl (faults (backend w))))"
      "\<not> next_fault (tl (tl (tl (faults (backend w)))))"
    by (simp_all add: no_fault_next no_fault_tl)
  note after = mark_connected_after [OF nf, where d=d and dn=dn and cid="Some a" and ver=ver and cps=cps]
  from nf2 after(1) have nf1: "\<not> next_fault (faults (backend ?w1))"
    "\<not> next_fault (tl (faults (backend ?w1)))" by simp_all
  have s1: "stored dn ?w1 \<noteq> [] \<and> list_all (\<lambda>r. get r ''client_id'' = PStr a) (stored dn ?w1)"
  proof (cases "stored dn w = []")
    case True
    from after(4) [OF True] show ?thesis
      by (simp add: get_def map_add_def connected_insert_def opt_str_def)
  next
    case False
    from after(5) [OF False] False show ?thesis
      by (simp add: list_all_iff get_merge_present connected_update_supplied)
  qed
  then obtain r rs where r: "stored dn ?w1 = r # rs" by (cases "stored dn ?w1") auto
  with s1 have ra: "get r ''client_id'' = PStr a" by simp
  from r have "fst ?res = to_model (r ++ ?u2)"
    by (simp add: mark_connected_table_ok [OF nf1] Let_def)
  with ra show "client_id (fst ?res) = PStr a"
    by (simp add: to_model_def get_merge_absent connected_update_unsupplied)
  from s1 have ne: "stored dn ?w1 \<noteq> []" by simp
  note after2 = mark_connected_after(5) [OF nf1 ne, where d=d and cid=None and ver=ver' and cps=cps']
  from after2 ne show "stored dn (snd ?res) \<noteq> []" by simp
  from after2 s1 show "list_all (\<lambda>r. get r ''client_id'' = PStr a) (stored dn (snd ?res))"
    by (simp add: list_all_iff get_merge_absent connected_update_unsupplied)
qed

theorem mark_connected_keeps_unsupplied_witness:
  "stored ''agent1'' (init_world [connected_insert ''agent1'' (PTime 7) (Some ''A'') (Some ''1.0'') None] []
                        (\<lambda>i. 100 + i)) \<noteq> [] \<and>
   map (\<lambda>r. get r ''client_id'')
     (stored ''agent1''
        (snd (mark_connected (table_client Map.empty) ''agent1'' None None None
               (init_world [connected_insert ''agent1'' (PTime 7) (Some ''A'') (Some ''1.0'') None] []
                  (\<lambda>i. 100 + i))))) = [PStr ''A''] \<and>
   client_id (fst (mark_connected (table_client Map.empty) ''agent1'' None None None
                (snd (mark_connected (table_client Map.empty) ''agent1'' (Some ''B'') None None
                   (init_world [connected_insert ''agent1'' (PTime 7) (Some ''A'') (Some ''1.0'') None] []
                      (\<lambda>i. 100 + i)))))) = PStr ''B''"
proof -
  let ?w = "init_world [connected_insert ''agent1'' (PTime 7) (Some ''A'') (Some ''1.0'') None] []
              (\<lambda>i. 100 + i)"
  have a: "stored ''agent1'' ?w = [connected_insert ''agent1'' (PTime 7) (Some ''A'') (Some ''1.0'') None]"
    by (simp add: stored_def init_world_def has_name_def connected_insert_def)
  have b: "True \<notin> set (faults (backend ?w))" by (simp add: init_world_def)
  have c: "get (connected_insert ''agent1'' (PTime 7) (Some ''A'') (Some ''1.0'') None) ''client_id'' = PStr ''A''"
    by (simp add: get_def connected_insert_def opt_str_def)
  from mark_connected_keeps_unsupplied
         [where dn="''agent1''" and w="?w" and d=Map.empty and ver=None and cps=None and cid=None
            and ver'=None and cps'=None and a="''B''"] a b c
  show ?thesis by simp
qed

lemma insert_status:
  "connected_insert dn now cid ver cps ''status'' = Some (PStr ''connected'')"
  by (simp add: connected_insert_def)

lemma insert_last_seen:
  "connected_insert dn now cid ver cps ''last_seen'' = Some now"
  by (simp add: connected_insert_def)

lemma mark_connected_status:
  "status (fst (mark_connected (table_client d) dn cid ver cps w)) = PStr ''connected''"
proof (cases "next_fault (faults (backend w)) \<or> next_fault (tl (faults (backend w)))")
  case True
  then show ?thesis
    by (auto simp: mark_connected_def mark_connected_try_table now_iso_def Let_def)
next
  case False
  then have nf: "\<not> next_fault (faults (backend w))" "\<not> next_fault (tl (faults (backend w)))"
    by simp_all
  show ?thesis
    by (simp add: mark_connected_table_ok [OF nf] Let_def to_model_def
          get_merge_present connected_update_status insert_status split: list.splits)
qed

lemma merged_connected:
  "list_all (\<lambda>r. get r ''status'' = PStr ''connected'' \<and> get r ''last_seen'' = now)
     (map (\<lambda>r. r ++ connected_update now cid ver cps) rs)"
  by (simp add: list_all_iff get_merge_present connected_update_status)

lemma merged_first_seen:
  "map (\<lambda>r. get r ''first_seen'') (map (\<lambda>r. r ++ connected_update now cid ver cps) rs) =
   map (\<lambda>r. get r ''first_seen'') rs"
  by (simp add: get_merge_absent connected_update_keys)

lemma connected_insert_first_seen:
  "connected_insert dn now cid ver cps ''first_seen'' = Some now"
  by (simp add: connected_insert_def)

text \<open>
  Claim C8. Repeating \<^verbatim>\<open>mark_connected\<close> for a display name with no optional field
  keeps the record connected and its \<^verbatim>\<open>first_seen\<close>, while \<^verbatim>\<open>last_seen\<close> advances.
  Over the reference store, for the two calls one after the other:
  \<^item> under any plan of faults, both returned records have status \<open>connected\<close>, and the
    rows stored under the name after the first call keep their \<^verbatim>\<open>first_seen\<close> through
    the second call and, when connected, stay connected;
  \<^item> when the store does not fail, a row of the name is stored after the first call;
    after each call every stored row of the name has status \<open>connected\<close> and the clock
    reading of that call as \<^verbatim>\<open>last_seen\<close>; the second call adds no row; a name that
    was not stored gets one row whose \<^verbatim>\<open>first_seen\<close> is the reading of the first call,
    and a name that was stored keeps the \<^verbatim>\<open>first_seen\<close> it had; each returned record is
    the stored one; the second record has the \<^verbatim>\<open>first_seen\<close> of the first; and with a
    clock that never steps back the second \<^verbatim>\<open>last_seen\<close> is not before the first.
\<close>

theorem repeated_mark_connected:
  "status (fst (mark_connected (table_client d) dn None None None w)) = PStr ''connected'' \<and> status (fst (mark_connected (table_client d) dn None None None (snd (mark_connected (table_client d) dn None None None w)))) = PStr ''connected'' \<and>
   (stored dn (snd (mark_connected (table_client d) dn None None None w)) \<noteq> [] \<longrightarrow>
      map (\<lambda>r. get r ''first_seen'') (stored dn (snd (mark_connected (table_client d) dn None None None (snd (mark_connected (table_client d) dn None None None w))))) =
        map (\<lambda>r. get r ''first_seen'') (stored dn (snd (mark_connected (table_client d) dn None None None w))) \<and>
      (list_all (\<lambda>r. get r ''status'' = PStr ''connected'') (stored dn (snd (mark_connected (table_client d) dn None None None w))) \<longrightarrow>
       list_all (\<lambda>r. get r ''status'' = PStr ''connected'') (stored dn (snd (mark_connected (table_client d) dn None None None (snd (mark_connected (table_client d) dn None None None w))))))) \<and>
   (True \<notin> set (faults (backend w)) \<longrightarrow>
      stored dn (snd (mark_connected (table_client d) dn None None None w)) \<noteq> [] \<and>
      list_all (\<lambda>r. get r ''status'' = PStr ''connected'' \<and>
                     get r ''last_seen'' = PTime (clock w (reads w))) (stored dn (snd (mark_connected (table_client d) dn None None None w))) \<and>
      list_all (\<lambda>r. get r ''status'' = PStr ''connected'' \<and>
                     get r ''last_seen'' = PTime (clock w (Suc (reads w)))) (stored dn (snd (mark_connected (table_client d) dn None None None (snd (mark_connected (table_client d) dn None None None w))))) \<and>
      length (stored dn (snd (mark_connected (table_client d) dn None None None (snd (mark_connected (table_client d) dn None None None w))))) = length (stored dn (snd (mark_connected (table_client d) dn None None None w))) \<and>
      (stored dn w = [] \<longrightarrow>
         length (stored dn (snd (mark_connected (table_client d) dn None None None w))) = 1 \<and> first_seen (fst (mark_connected (table_client d) dn None None None w)) = PTime (clock w (reads w))) \<and>
      (stored dn w \<noteq> [] \<longrightarrow>
         map (\<lambda>r. get r ''first_seen'') (stored dn (snd (mark_connected (table_client d) dn None None None w))) =
           map (\<lambda>r. get r ''first_seen'') (stored dn w)) \<and>
      map to_model (take 1 (stored dn (snd (mark_connected (table_client d) dn None None None w)))) = [fst (mark_connected (table_client d) dn None None None w)] \<and>
      map to_model (take 1 (stored dn (snd (mark_connected (table_client d) dn None None None (snd (mark_connected (table_client d) dn None None None w)))))) = [fst (mark_connected (table_client d) dn None None None (snd (mark_connected (table_client d) dn None None None w)))] \<and>
      first_seen (fst (mark_connected (table_client d) dn None None None (snd (mark_connected (table_client d) dn None None None w)))) = first_seen (fst (mark_connected (table_client d) dn None None None w)) \<and>
      last_seen (fst (mark_connected (table_client d) dn None None None w)) = PTime (clock w (reads w)) \<and>
      last_seen (fst (mark_connected (table_client d) dn None None None (snd (mark_connected (table_client d) dn None None None w)))) = PTime (clock w (Suc (reads w))) \<and>
      (mono (clock w) \<longrightarrow> ts_le (last_seen (fst (mark_connected (table_client d) dn None None None w))) (last_seen (fst (mark_connected (table_client d) dn None None None (snd (mark_connected (table_client d) dn None None None w)))))))"
proof (intro conjI impI)
  show "status (fst (mark_connected (table_client d) dn None None None w)) = PStr ''connected''" "status (fst (mark_connected (table_client d) dn None None None (snd (mark_connected (table_client d) dn None None None w)))) = PStr ''connected''"
    by (rule mark_connected_status)+
next
  assume ne: "stored dn (snd (mark_connected (table_client d) dn None None None w)) \<noteq> []"
  note either = mark_connected_stored [OF ne, of d None None None]
  show "map (\<lambda>r. get r ''first_seen'') (stored dn (snd (mark_connected (table_client d) dn None None None (snd (mark_connected (table_client d) dn None None None w))))) =
        map (\<lambda>r. get r ''first_seen'') (stored dn (snd (mark_connected (table_client d) dn None None None w)))"
    using either
  proof
    assume "stored dn (snd (mark_connected (table_client d) dn None None None (snd (mark_connected (table_client d) dn None None None w)))) = stored dn (snd (mark_connected (table_client d) dn None None None w))"
    then show ?thesis by simp
  next
    assume eq: "stored dn (snd (mark_connected (table_client d) dn None None None (snd (mark_connected (table_client d) dn None None None w)))) =
      map (\<lambda>r. r ++ connected_update (PTime (clock (snd (mark_connected (table_client d) dn None None None w)) (reads (snd (mark_connected (table_client d) dn None None None w))))) None None None)
        (stored dn (snd (mark_connected (table_client d) dn None None None w)))"
    show ?thesis unfolding eq by (rule merged_first_seen)
  qed
  assume conn: "list_all (\<lambda>r. get r ''status'' = PStr ''connected'') (stored dn (snd (mark_connected (table_client d) dn None None None w)))"
  show "list_all (\<lambda>r. get r ''status'' = PStr ''connected'') (stored dn (snd (mark_connected (table_client d) dn None None None (snd (mark_connected (table_client d) dn None None None w)))))"
    using either
  proof
    assume "stored dn (snd (mark_connected (table_client d) dn None None None (snd (mark_connected (table_client d) dn None None None w)))) = stored dn (snd (mark_connected (table_client d) dn None None None w))"
    with conn show ?thesis by simp
  next
    assume eq: "stored dn (snd (mark_connected (table_client d) dn None None None (snd (mark_connected (table_client d) dn None None None w)))) =
      map (\<lambda>r. r ++ connected_update (PTime (clock (snd (mark_connected (table_client d) dn None None None w)) (reads (snd (mark_connected (table_client d) dn None None None w))))) None None None)
        (stored dn (snd (mark_connected (table_client d) dn None None None w)))"
    show ?thesis unfolding eq
      by (simp add: list_all_iff get_merge_present connected_update_status)
  qed
next
  assume nofault: "True \<notin> set (faults (backend w))"
  let ?now = "PTime (clock w (reads w))"
  let ?now1 = "PTime (clock w (Suc (reads w)))"
  let ?u = "connected_update ?now None None None"
  let ?u1 = "connected_update ?now1 None None None"
  from nofault have nf: "\<not> next_fault (faults (backend w))" "\<not> next_fault (tl (faults (backend w)))"
    and nf2: "\<not> next_fault (tl (tl (faults (backend w))))"
      "\<not> next_fault (tl (tl (tl (faults (backend w)))))"
    by (simp_all add: no_fault_next no_fault_tl)
  note after = mark_connected_after [OF nf, where d=d and dn=dn and cid=None and ver=None and cps=None]
  from nf2 after(1) have nf1: "\<not> next_fault (faults (backend (snd (mark_connected (table_client d) dn None None None w))))"
    "\<not> next_fault (tl (faults (backend (snd (mark_connected (table_client d) dn None None None w)))))" by simp_all
  have first: "stored dn (snd (mark_connected (table_client d) dn None None None w)) \<noteq> [] \<and>
      list_all (\<lambda>r. get r ''status'' = PStr ''connected'' \<and> get r ''last_seen'' = ?now)
        (stored dn (snd (mark_connected (table_client d) dn None None None w))) \<and>
      map to_model (take 1 (stored dn (snd (mark_connected (table_client d) dn None None None w)))) = [fst (mark_connected (table_client d) dn None None None w)] \<and>
      (stored dn w = [] \<longrightarrow> length (stored dn (snd (mark_connected (table_client d) dn None None None w))) = 1 \<and> first_seen (fst (mark_connected (table_client d) dn None None None w)) = ?now) \<and>
      (stored dn w \<noteq> [] \<longrightarrow>
         map (\<lambda>r. get r ''first_seen'') (stored dn (snd (mark_connected (table_client d) dn None None None w))) =
           map (\<lambda>r. get r ''first_seen'') (stored dn w))"
  proof (cases "stored dn w")
    case Nil
    with after(4) show ?thesis
      by (simp add: mark_connected_table_ok [OF nf] Let_def get_merge_present insert_status
            insert_last_seen to_model_def connected_insert_first_seen)
  next
    case (Cons r rs)
    with after(5) merged_connected [of ?now None None None "r # rs"]
      merged_first_seen [of ?now None None None "r # rs"]
    show ?thesis
      by (simp add: mark_connected_table_ok [OF nf] Let_def)
  qed
  then obtain x xs where x: "stored dn (snd (mark_connected (table_client d) dn None None None w)) = x # xs" "fst (mark_connected (table_client d) dn None None None w) = to_model x"
    "get x ''last_seen'' = ?now"
    by (cases "stored dn (snd (mark_connected (table_client d) dn None None None w))") auto
  from x(1) have ne: "stored dn (snd (mark_connected (table_client d) dn None None None w)) \<noteq> []" by simp
  note after2 = mark_connected_after(5)
    [OF nf1 ne, where d=d and cid=None and ver=None and cps=None, unfolded after(2) after(3)]
  have second: "fst (mark_connected (table_client d) dn None None None (snd (mark_connected (table_client d) dn None None None w))) = to_model (x ++ ?u1)"
    using x(1) after(2,3) by (simp add: mark_connected_table_ok [OF nf1] Let_def)
  from first show "stored dn (snd (mark_connected (table_client d) dn None None None w)) \<noteq> []"
    and "list_all (\<lambda>r. get r ''status'' = PStr ''connected'' \<and> get r ''last_seen'' = ?now)
           (stored dn (snd (mark_connected (table_client d) dn None None None w)))"
    and "map to_model (take 1 (stored dn (snd (mark_connected (table_client d) dn None None None w)))) = [fst (mark_connected (table_client d) dn None None None w)]"
    by simp_all
  from first show "length (stored dn (snd (mark_connected (table_client d) dn None None None w))) = 1" "first_seen (fst (mark_connected (table_client d) dn None None None w)) = ?now"
    if "stored dn w = []" using that by simp_all
  from first show "map (\<lambda>r. get r ''first_seen'') (stored dn (snd (mark_connected (table_client d) dn None None None w))) =
           map (\<lambda>r. get r ''first_seen'') (stored dn w)" if "stored dn w \<noteq> []"
    using that by simp
  show "list_all (\<lambda>r. get r ''status'' = PStr ''connected'' \<and> get r ''last_seen'' = ?now1)
          (stored dn (snd (mark_connected (table_client d) dn None None None (snd (mark_connected (table_client d) dn None None None w)))))"
    unfolding after2 by (rule merged_connected)
  show "length (stored dn (snd (mark_connected (table_client d) dn None None None (snd (mark_connected (table_client d) dn None None None w))))) = length (stored dn (snd (mark_connected (table_client d) dn None None None w)))"
    unfolding after2 by simp
  show "map to_model (take 1 (stored dn (snd (mark_connected (table_client d) dn None None None (snd (mark_connected (table_client d) dn None None None w)))))) = [fst (mark_connected (table_client d) dn None None None (snd (mark_connected (table_client d) dn None None None w)))]"
    unfolding after2 by (simp add: x(1) second)
  show "first_seen (fst (mark_connected (table_client d) dn None None None (snd (mark_connected (table_client d) dn None None None w)))) = first_seen (fst (mark_connected (table_client d) dn None None None w))"
    by (simp add: second x(2) to_model_def get_merge_absent connected_update_keys)
  show l1: "last_seen (fst (mark_connected (table_client d) dn None None None w)) = ?now"
    by (simp add: x(2,3) to_model_def)
  show l2: "last_seen (fst (mark_connected (table_client d) dn None None None (snd (mark_connected (table_client d) dn None None None w)))) = ?now1"
    by (simp add: second to_model_def get_merge_present connected_update_status)
  show "ts_le (last_seen (fst (mark_connected (table_client d) dn None None None w))) (last_seen (fst (mark_connected (table_client d) dn None None None (snd (mark_connected (table_client d) dn None None None w)))))" if "mono (clock w)"
    using that by (simp add: l1 l2 monoD)
qed

theorem repeated_mark_connected_witness:
  "True \<notin> set (faults (backend (init_world [disconnected_insert ''agent1'' (PTime 7)] [] (\<lambda>i. 100 + i)))) \<and> mono (clock (init_world [disconnected_insert ''agent1'' (PTime 7)] [] (\<lambda>i. 100 + i))) \<and>
   map (\<lambda>r. get r ''status'') (stored ''agent1'' (init_world [disconnected_insert ''agent1'' (PTime 7)] [] (\<lambda>i. 100 + i))) = [PStr ''disconnected''] \<and>
   status (fst (mark_connected (table_client Map.empty) ''agent1'' None None None (init_world [disconnected_insert ''agent1'' (PTime 7)] [] (\<lambda>i. 100 + i)))) = PStr ''connected'' \<and> status (fst (mark_connected (table_client Map.empty) ''agent1'' None None None (snd (mark_connected (table_client Map.empty) ''agent1'' None None None (init_world [disconnected_insert ''agent1'' (PTime 7)] [] (\<lambda>i. 100 + i)))))) = PStr ''connected'' \<and>
   stored ''agent1'' (snd (mark_connected (table_client Map.empty) ''agent1'' None None None (init_world [disconnected_insert ''agent1'' (PTime 7)] [] (\<lambda>i. 100 + i)))) \<noteq> [] \<and>
   list_all (\<lambda>r. get r ''status'' = PStr ''connected'' \<and> get r ''last_seen'' = PTime 100)
     (stored ''agent1'' (snd (mark_connected (table_client Map.empty) ''agent1'' None None None (init_world [disconnected_insert ''agent1'' (PTime 7)] [] (\<lambda>i. 100 + i))))) \<and>
   list_all (\<lambda>r. get r ''status'' = PStr ''connected'' \<and> get r ''last_seen'' = PTime 101)
     (stored ''agent1'' (snd (mark_connected (table_client Map.empty) ''agent1'' None None None (snd (mark_connected (table_client Map.empty) ''agent1'' None None None (init_world [disconnected_insert ''agent1'' (PTime 7)] [] (\<lambda>i. 100 + i))))))) \<and>
   map (\<lambda>r. get r ''first_seen'') (stored ''agent1'' (snd (mark_connected (table_client Map.empty) ''agent1'' None None None (init_world [disconnected_insert ''agent1'' (PTime 7)] [] (\<lambda>i. 100 + i))))) = [PTime 7] \<and>
   map (\<lambda>r. get r ''first_seen'') (stored ''agent1'' (snd (mark_connected (table_client Map.empty) ''agent1'' None None None (snd (mark_connected (table_client Map.empty) ''agent1'' None None None (init_world [disconnected_insert ''agent1'' (PTime 7)] [] (\<lambda>i. 100 + i))))))) = [PTime 7] \<and>
   map to_model (take 1 (stored ''agent1'' (snd (mark_connected (table_client Map.empty) ''agent1'' None None None (snd (mark_connected (table_client Map.empty) ''agent1'' None None None (init_world [disconnected_insert ''agent1'' (PTime 7)] [] (\<lambda>i. 100 + i)))))))) = [fst (mark_connected (table_client Map.empty) ''agent1'' None None None (snd (mark_connected (table_client Map.empty) ''agent1'' None None None (init_world [disconnected_insert ''agent1'' (PTime 7)] [] (\<lambda>i. 100 + i)))))] \<and>
   first_seen (fst (mark_connected (table_client Map.empty) ''agent1'' None None None (snd (mark_connected (table_client Map.empty) ''agent1'' None None None (init_world [disconnected_insert ''agent1'' (PTime 7)] [] (\<lambda>i. 100 + i)))))) = first_seen (fst (mark_connected (table_client Map.empty) ''agent1'' None None None (init_world [disconnected_insert ''agent1'' (PTime 7)] [] (\<lambda>i. 100 + i)))) \<and>
   last_seen (fst (mark_connected (table_client Map.empty) ''agent1'' None None None (init_world [disconnected_insert ''agent1'' (PTime 7)] [] (\<lambda>i. 100 + i)))) = PTime 100 \<and> last_seen (fst (mark_connected (table_client Map.empty) ''agent1'' None None None (snd (mark_connected (table_client Map.empty) ''agent1'' None None None (init_world [disconnected_insert ''agent1'' (PTime 7)] [] (\<lambda>i. 100 + i)))))) = PTime 101 \<and>
   ts_le (last_seen (fst (mark_connected (table_client Map.empty) ''agent1'' None None None (init_world [disconnected_insert ''agent1'' (PTime 7)] [] (\<lambda>i. 100 + i))))) (last_seen (fst (mark_connected (table_client Map.empty) ''agent1'' None None None (snd (mark_connected (table_client Map.empty) ''agent1'' None None None (init_world [disconnected_insert ''agent1'' (PTime 7)] [] (\<lambda>i. 100 + i)))))))"
proof -
  have a: "True \<notin> set (faults (backend (init_world [disconnected_insert ''agent1'' (PTime 7)] [] (\<lambda>i. 100 + i))))" by (simp add: init_world_def)
  have b: "mono (clock (init_world [disconnected_insert ''agent1'' (PTime 7)] [] (\<lambda>i. 100 + i)))" by (simp add: init_world_def mono_def)
  have c: "clock (init_world [disconnected_insert ''agent1'' (PTime 7)] [] (\<lambda>i. 100 + i)) (reads (init_world [disconnected_insert ''agent1'' (PTime 7)] [] (\<lambda>i. 100 + i))) = 100" "clock (init_world [disconnected_insert ''agent1'' (PTime 7)] [] (\<lambda>i. 100 + i)) (Suc (reads (init_world [disconnected_insert ''agent1'' (PTime 7)] [] (\<lambda>i. 100 + i)))) = 101"
    by (simp_all add: init_world_def)
  have s: "stored ''agent1'' (init_world [disconnected_insert ''agent1'' (PTime 7)] [] (\<lambda>i. 100 + i)) = [disconnected_insert ''agent1'' (PTime 7)]"
    by (simp add: stored_def init_world_def has_name_def disconnected_insert_def)
  have g: "get (disconnected_insert ''agent1'' (PTime 7)) ''status'' = PStr ''disconnected''"
    "get (disconnected_insert ''agent1'' (PTime 7)) ''first_seen'' = PTime 7"
    by (simp_all add: get_def disconnected_insert_def)
  from repeated_mark_connected [where d=Map.empty and dn="''agent1''" and w="(init_world [disconnected_insert ''agent1'' (PTime 7)] [] (\<lambda>i. 100 + i))"] a b c s g
  show ?thesis by simp
qed

section \<open>The listing\<close>

text \<open>Sorting by a key whose first component is a flag puts the unflagged first.\<close>

lemma sorted_flag_split:
  fixes f :: "'a \<Rightarrow> bool \<times> 'b::linorder"
  assumes "sorted (map f xs)"
  shows "xs = filter (\<lambda>x. \<not> fst (f x)) xs @ filter (\<lambda>x. fst (f x)) xs"
  using assms
proof (induction xs)
  case Nil
  show ?case by simp
next
  case (Cons x xs)
  then have le: "\<forall>y\<in>set xs. f x \<le> f y" and srt: "sorted (map f xs)" by simp_all
  show ?case
  proof (cases "fst (f x)")
    case True
    have "\<forall>y\<in>set xs. fst (f y)"
    proof
      fix y assume "y \<in> set xs"
      with le have "f x \<le> f y" by simp
      with True show "fst (f y)"
        by (cases "f x"; cases "f y") (auto simp: less_eq_prod_def)
    qed
    then have "filter (\<lambda>x. \<not> fst (f x)) xs = []" "filter (\<lambda>x. fst (f x)) xs = xs"
      by (simp_all add: filter_empty_conv filter_id_conv)
    with True show ?thesis by simp
  next
    case False
    with Cons.IH [OF srt] show ?thesis by simp
  qed
qed

lemma sorted_group_names:
  fixes f :: "'a \<Rightarrow> bool \<times> string"
  assumes "sorted (map f xs)" "\<forall>x\<in>set xs. P x \<longrightarrow> fst (f x) = b"
  shows "sorted (map (\<lambda>x. snd (f x)) (filter P xs))"
  using assms
proof (induction xs)
  case Nil
  show ?case by simp
next
  case (Cons x xs)
  then have le: "\<forall>y\<in>set xs. f x \<le> f y" and srt: "sorted (map f xs)"
    and grp: "\<forall>x\<in>set xs. P x \<longrightarrow> fst (f x) = b" by simp_all
  note IH = Cons.IH [OF srt grp]
  show ?case
  proof (cases "P x")
    case False
    with IH show ?thesis by simp
  next
    case True
    have "\<forall>y\<in>set (filter P xs). snd (f x) \<le> snd (f y)"
    proof
      fix y assume y: "y \<in> set (filter P xs)"
      with le have "f x \<le> f y" by simp
      moreover from y grp have "fst (f y) = b" by simp
      moreover from True Cons.prems(2) have "fst (f x) = b" by simp
      ultimately show "snd (f x) \<le> snd (f y)"
        by (cases "f x"; cases "f y") (auto simp: less_eq_prod_def)
    qed
    with True IH show ?thesis by simp
  qed
qed

lemma named_sort_name: "is_str (get r ''display_name'') \<Longrightarrow> sort_name r = get r ''display_name''"
  by (cases "r ''display_name''") (simp_all add: sort_name_def get_def get_or_def)

lemma named_str: "is_str v \<Longrightarrow> PStr (str_of v) = v"
  by (cases v) simp_all

lemma named_sortable:
  "list_all (\<lambda>r. is_str (get r ''display_name'')) rs \<Longrightarrow> list_all (\<lambda>r. is_str (sort_name r)) rs"
  by (simp add: list_all_iff named_sort_name)

lemma model_connected: "is_connected (to_model r) = (\<not> sort_flag r)"
  by (simp add: is_connected_def to_model_def sort_flag_def)

lemma filter_models_connected:
  "filter is_connected (map to_model rs) = map to_model (filter (\<lambda>r. \<not> sort_flag r) rs)"
  "filter (\<lambda>m. \<not> is_connected m) (map to_model rs) = map to_model (filter sort_flag rs)"
  by (induction rs) (simp_all add: model_connected)

lemma named_key:
  "is_str (get r ''display_name'') \<Longrightarrow> display_name (to_model r) = PStr (snd (row_key r))"
  by (simp add: row_key_def named_sort_name named_str to_model_def)

lemma sorted_names_models:
  assumes "\<forall>r\<in>set rs. is_str (get r ''display_name'')"
      and "sorted (map (\<lambda>r. snd (row_key r)) rs)"
  shows "sorted_wrt name_le (map display_name (map to_model rs))"
proof -
  have eq: "map display_name (map to_model rs) = map PStr (map (\<lambda>r. snd (row_key r)) rs)"
    using assms(1) by (simp add: named_key)
  have "sorted_wrt name_le (map PStr (map (\<lambda>r. snd (row_key r)) rs))"
    using assms(2) by (simp add: sorted_wrt_map sorted_map)
  then show ?thesis unfolding eq .
qed

lemma split_models:
  assumes "ys = filter (\<lambda>r. \<not> sort_flag r) ys @ filter sort_flag ys"
  shows "map to_model ys =
           filter is_connected (map to_model ys) @ filter (\<lambda>m. \<not> is_connected m) (map to_model ys)"
proof -
  have "map to_model ys = map to_model (filter (\<lambda>r. \<not> sort_flag r) ys @ filter sort_flag ys)"
    by (rule arg_cong [OF assms])
  also have "\<dots> = map to_model (filter (\<lambda>r. \<not> sort_flag r) ys) @ map to_model (filter sort_flag ys)"
    by (rule map_append)
  also have "\<dots> = filter is_connected (map to_model ys) @
                   filter (\<lambda>m. \<not> is_connected m) (map to_model ys)"
    by (simp only: filter_models_connected)
  finally show ?thesis .
qed

text \<open>
  Claim C5. Over the reference store, when the select does not fail and every stored
  display name is a string, \<^verbatim>\<open>list_all\<close> returns every stored record, each as often as
  it is stored; the records with status \<open>connected\<close> come first and all others after
  them; and in each of the two groups the display names ascend.
\<close>

theorem list_all_connected_first:
  assumes "\<not> next_fault (faults (backend w))"
      and "list_all (\<lambda>r. is_str (get r ''display_name'')) (rows (backend w))"
  shows "mset (fst (list_all_clients (table_client d) w)) = mset (map to_model (rows (backend w))) \<and>
         fst (list_all_clients (table_client d) w) =
           filter is_connected (fst (list_all_clients (table_client d) w)) @
           filter (\<lambda>m. \<not> is_connected m) (fst (list_all_clients (table_client d) w)) \<and>
         sorted_wrt name_le
           (map display_name (filter is_connected (fst (list_all_clients (table_client d) w)))) \<and>
         sorted_wrt name_le
           (map display_name (filter (\<lambda>m. \<not> is_connected m) (fst (list_all_clients (table_client d) w))))"
proof -
  let ?rs = "rows (backend w)"
  let ?ys = "sort_key row_key (rev (sort_key (order_key ''last_seen'') ?rs))"
  have res: "fst (list_all_clients (table_client d) w) = map to_model ?ys"
    by (simp add: list_all_table_ok [OF assms(1) named_sortable [OF assms(2)]])
  have srt: "sorted (map row_key ?ys)" by (rule sorted_sort_key)
  have named: "\<forall>r\<in>set ?ys. is_str (get r ''display_name'')"
    using assms(2) by (simp add: list_all_iff)
  have every: "mset (map to_model ?ys) = mset (map to_model ?rs)"
    by simp
  have "?ys = filter (\<lambda>r. \<not> fst (row_key r)) ?ys @ filter (\<lambda>r. fst (row_key r)) ?ys"
    by (rule sorted_flag_split [OF srt])
  then have "?ys = filter (\<lambda>r. \<not> sort_flag r) ?ys @ filter sort_flag ?ys"
    by (simp add: row_key_def)
  then have split: "map to_model ?ys =
      filter is_connected (map to_model ?ys) @ filter (\<lambda>m. \<not> is_connected m) (map to_model ?ys)"
    by (rule split_models)
  have c: "sorted (map (\<lambda>r. snd (row_key r)) (filter (\<lambda>r. \<not> sort_flag r) ?ys))"
    by (rule sorted_group_names [OF srt, where b=False]) (simp add: row_key_def)
  have dsc: "sorted (map (\<lambda>r. snd (row_key r)) (filter sort_flag ?ys))"
    by (rule sorted_group_names [OF srt, where b=True]) (simp add: row_key_def)
  have cn: "sorted_wrt name_le (map display_name (filter is_connected (map to_model ?ys)))"
    unfolding filter_models_connected
    by (rule sorted_names_models [OF _ c]) (use named in simp)
  have dn: "sorted_wrt name_le (map display_name (filter (\<lambda>m. \<not> is_connected m) (map to_model ?ys)))"
    unfolding filter_models_connected
    by (rule sorted_names_models [OF _ dsc]) (use named in simp)
  from every split cn dn show ?thesis
    unfolding res by (intro conjI)
qed

theorem list_all_connected_first_witness:
  "\<not> next_fault (faults (backend (init_world [connected_insert ''A'' (PTime 5) None None None, disconnected_insert ''B'' (PTime 7), connected_insert ''C'' (PTime 3) None None None] [] (\<lambda>i. 100 + i)))) \<and>
   list_all (\<lambda>r. is_str (get r ''display_name'')) (rows (backend (init_world [connected_insert ''A'' (PTime 5) None None None, disconnected_insert ''B'' (PTime 7), connected_insert ''C'' (PTime 3) None None None] [] (\<lambda>i. 100 + i)))) \<and>
   mset (fst (list_all_clients (table_client Map.empty) (init_world [connected_insert ''A'' (PTime 5) None None None, disconnected_insert ''B'' (PTime 7), connected_insert ''C'' (PTime 3) None None None] [] (\<lambda>i. 100 + i)))) = mset (map to_model (rows (backend (init_world [connected_insert ''A'' (PTime 5) None None None, disconnected_insert ''B'' (PTime 7), connected_insert ''C'' (PTime 3) None None None] [] (\<lambda>i. 100 + i))))) \<and>
   (fst (list_all_clients (table_client Map.empty) (init_world [connected_insert ''A'' (PTime 5) None None None, disconnected_insert ''B'' (PTime 7), connected_insert ''C'' (PTime 3) None None None] [] (\<lambda>i. 100 + i)))) = filter is_connected (fst (list_all_clients (table_client Map.empty) (init_world [connected_insert ''A'' (PTime 5) None None None, disconnected_insert ''B'' (PTime 7), connected_insert ''C'' (PTime 3) None None None] [] (\<lambda>i. 100 + i)))) @ filter (\<lambda>m. \<not> is_connected m) (fst (list_all_clients (table_client Map.empty) (init_world [connected_insert ''A'' (PTime 5) None None None, disconnected_insert ''B'' (PTime 7), connected_insert ''C'' (PTime 3) None None None] [] (\<lambda>i. 100 + i)))) \<and>
   sorted_wrt name_le (map display_name (filter is_connected (fst (list_all_clients (table_client Map.empty) (init_world [connected_insert ''A'' (PTime 5) None None None, disconnected_insert ''B'' (PTime 7), connected_insert ''C'' (PTime 3) None None None] [] (\<lambda>i. 100 + i)))))) \<and>
   sorted_wrt name_le (map display_name (filter (\<lambda>m. \<not> is_connected m) (fst (list_all_clients (table_client Map.empty) (init_world [connected_insert ''A'' (PTime 5) None None None, disconnected_insert ''B'' (PTime 7), connected_insert ''C'' (PTime 3) None None None] [] (\<lambda>i. 100 + i))))))"
proof -
  have a: "\<not> next_fault (faults (backend (init_world [connected_insert ''A'' (PTime 5) None None None, disconnected_insert ''B'' (PTime 7), connected_insert ''C'' (PTime 3) None None None] [] (\<lambda>i. 100 + i))))"
    by (simp add: init_world_def next_fault_def)
  have b: "list_all (\<lambda>r. is_str (get r ''display_name'')) (rows (backend (init_world [connected_insert ''A'' (PTime 5) None None None, disconnected_insert ''B'' (PTime 7), connected_insert ''C'' (PTime 3) None None None] [] (\<lambda>i. 100 + i))))"
    by (simp add: init_world_def get_def connected_insert_def disconnected_insert_def)
  from list_all_connected_first [OF a b, of Map.empty] a b show ?thesis by blast
qed

text \<open>The listing example of the specification: A and C connected, B disconnected.\<close>

lemma list_all_example:
  "map (\<lambda>m. (display_name m, status m)) (fst (list_all_clients (table_client Map.empty) (init_world [connected_insert ''A'' (PTime 5) None None None, disconnected_insert ''B'' (PTime 7), connected_insert ''C'' (PTime 3) None None None] [] (\<lambda>i. 100 + i)))) =
     [(PStr ''A'', PStr ''connected''), (PStr ''C'', PStr ''connected''),
      (PStr ''B'', PStr ''disconnected'')]"
  by (simp add: list_all_table_ok init_world_def next_fault_def sort_name_def get_or_def
        connected_insert_def disconnected_insert_def row_key_def sort_flag_def get_def
        order_key_def to_model_def)

section \<open>The order of the two timestamps\<close>

lemma in_order_later: "in_order t r \<Longrightarrow> t \<le> t' \<Longrightarrow> in_order t' r"
  by (cases "get r ''first_seen''"; cases "get r ''last_seen''") (simp_all add: in_order_def)

lemma in_order_connected_update:
  "in_order t r \<Longrightarrow> t \<le> t' \<Longrightarrow> in_order t' (r ++ connected_update (PTime t) cid ver cps)"
  by (cases "get r ''first_seen''"; cases "get r ''last_seen''")
     (simp_all add: in_order_def get_merge_absent connected_update_keys get_merge_present
        connected_update_status)

lemma disconnected_update_last_seen: "disconnected_update now ''last_seen'' = Some now"
  by (simp add: disconnected_update_def)

lemma in_order_disconnected_update:
  "in_order t r \<Longrightarrow> t \<le> t' \<Longrightarrow> in_order t' (r ++ disconnected_update (PTime t))"
  by (cases "get r ''first_seen''"; cases "get r ''last_seen''")
     (simp_all add: in_order_def get_merge_absent disconnected_update_keys get_merge_present
        disconnected_update_last_seen)

lemma in_order_inserts:
  "t \<le> t' \<Longrightarrow> in_order t' (d ++ connected_insert dn (PTime t) cid ver cps)"
  "t \<le> t' \<Longrightarrow> in_order t' (d ++ disconnected_insert dn (PTime t))"
  by (simp_all add: in_order_def get_def map_add_def connected_insert_def disconnected_insert_def)

lemma in_order_model: "in_order t r \<Longrightarrow> ts_le (first_seen (to_model r)) (last_seen (to_model r))"
  by (simp add: in_order_def to_model_def)

text \<open>
  Every record that comes from the store is in order: over the reference store whose
  rows are in order at the next clock reading, the record that the \<^verbatim>\<open>try\<close> block of
  \<^verbatim>\<open>mark_connected\<close> returns, the record of \<^verbatim>\<open>mark_disconnected\<close> and the records of
  \<^verbatim>\<open>list_all\<close> have \<^verbatim>\<open>first_seen\<close> not after \<^verbatim>\<open>last_seen\<close>. Only the handler of
  \<^verbatim>\<open>mark_connected\<close> is left.
\<close>

lemma store_records_in_order:
  assumes "list_all (in_order (clock w (reads w))) (rows (backend w))"
  shows "fst (mark_connected_try (table_client d) dn cid ver cps w) = Inr m \<Longrightarrow>
           ts_le (first_seen m) (last_seen m)"
    and "fst (mark_disconnected (table_client d) dn w) = Some m \<Longrightarrow>
           ts_le (first_seen m) (last_seen m)"
    and "m \<in> set (fst (list_all_clients (table_client d) w)) \<Longrightarrow>
           ts_le (first_seen m) (last_seen m)"
proof -
  let ?t = "clock w (reads w)"
  from assms have inv: "\<forall>r\<in>set (rows (backend w)). in_order ?t r" by (simp add: list_all_iff)
  have hd_in: "in_order ?t r" if "filter (has_name dn) (rows (backend w)) = r # rs" for r rs
  proof -
    from that have "r \<in> set (filter (has_name dn) (rows (backend w)))" by simp
    with inv show ?thesis by simp
  qed
  show "ts_le (first_seen m) (last_seen m)"
    if "fst (mark_connected_try (table_client d) dn cid ver cps w) = Inr m"
    using that hd_in
    by (auto simp: mark_connected_try_table Let_def
          intro!: in_order_model in_order_connected_update in_order_inserts
          split: if_splits list.splits)
  show "ts_le (first_seen m) (last_seen m)"
    if "fst (mark_disconnected (table_client d) dn w) = Some m"
    using that hd_in
    by (auto simp: mark_disconnected_def mark_disconnected_try_table Let_def
          intro!: in_order_model in_order_disconnected_update in_order_inserts
          split: if_splits list.splits)
  show "ts_le (first_seen m) (last_seen m)"
    if "m \<in> set (fst (list_all_clients (table_client d) w))"
  proof -
    from that have "m \<in> to_model ` set (rows (backend w))"
      by (auto simp: list_all_clients_def list_all_try_table Let_def sort_rows_def
            split: if_splits sum.splits)
    with inv show ?thesis by (auto intro: in_order_model)
  qed
qed

lemma run_op_frame: "clock (run_op d op w) = clock w \<and> reads w \<le> reads (run_op d op w)"
proof (cases op)
  case (Connect dn cid ver cps)
  then show ?thesis
    by (simp add: mark_connected_def mark_connected_try_table now_iso_def Let_def split: list.splits)
next
  case (Disconnect dn)
  then show ?thesis
    by (simp add: mark_disconnected_def mark_disconnected_try_table Let_def split: list.splits)
next
  case ListAll
  then show ?thesis
    by (simp add: list_all_clients_def list_all_try_table Let_def split: sum.splits)
next
  case (Exists dn)
  then show ?thesis by (simp add: exists_def exists_try_table Let_def)
qed

lemma in_order_touch:
  assumes "\<forall>r\<in>set rs. in_order t r" "t \<le> t'"
      and "\<And>r. in_order t r \<Longrightarrow> in_order t' (r ++ u)"
  shows "\<forall>r\<in>set (touch dn u rs). in_order t' r"
  using assms by (auto simp: touch_def intro: in_order_later)

text \<open>With a clock that never steps back, every operation keeps the stored rows in order.\<close>

lemma run_op_in_order:
  assumes "mono (clock w)"
      and "list_all (in_order (clock w (reads w))) (rows (backend w))"
  shows "list_all (in_order (clock (run_op d op w) (reads (run_op d op w))))
           (rows (backend (run_op d op w)))"
proof -
  let ?t = "clock w (reads w)"
  let ?t' = "clock (run_op d op w) (reads (run_op d op w))"
  from run_op_frame [of d op w] assms(1) have le: "?t \<le> ?t'" by (simp add: monoD)
  from assms(2) have inv: "\<forall>r\<in>set (rows (backend w)). in_order ?t r" by (simp add: list_all_iff)
  then have same: "\<forall>r\<in>set (rows (backend w)). in_order ?t' r"
    using le by (auto intro: in_order_later)
  have "\<forall>r\<in>set (rows (backend (run_op d op w))). in_order ?t' r"
  proof (cases op)
    case (Connect dn cid ver cps)
    have "\<forall>r\<in>set (touch dn (connected_update (PTime ?t) cid ver cps) (rows (backend w))). in_order ?t' r"
      by (rule in_order_touch [OF inv le]) (rule in_order_connected_update [OF _ le])
    with same in_order_inserts(1) [OF le] show ?thesis
      unfolding Connect run_op.simps mark_connected_table_rows Let_def
      by (simp add: Connect [symmetric])
  next
    case (Disconnect dn)
    have "\<forall>r\<in>set (touch dn (disconnected_update (PTime ?t)) (rows (backend w))). in_order ?t' r"
      by (rule in_order_touch [OF inv le]) (rule in_order_disconnected_update [OF _ le])
    with same in_order_inserts(2) [OF le] show ?thesis
      unfolding Disconnect run_op.simps mark_disconnected_table_rows Let_def
      by (simp add: Disconnect [symmetric])
  next
    case ListAll
    with same show ?thesis by (simp add: list_all_table_rows)
  next
    case (Exists dn)
    with same show ?thesis by (simp add: exists_table_rows)
  qed
  then show ?thesis by (simp add: list_all_iff)
qed

lemma run_ops_in_order:
  "mono (clock w) \<Longrightarrow> list_all (in_order (clock w (reads w))) (rows (backend w)) \<Longrightarrow>
   list_all (in_order (clock (run_ops d ops w) (reads (run_ops d ops w))))
     (rows (backend (run_ops d ops w)))"
proof (induction ops arbitrary: w)
  case Nil
  then show ?case by (simp add: run_ops_def)
next
  case (Cons op ops)
  have step: "run_ops d (op # ops) w = run_ops d ops (run_op d op w)"
    by (simp add: run_ops_def)
  from run_op_frame [of d op w] Cons.prems(1) have "mono (clock (run_op d op w))" by simp
  from Cons.IH [OF this run_op_in_order [OF Cons.prems]] show ?case
    unfolding step .
qed

text \<open>
  The handler's record is out of order whenever the clock advances between its two
  readings, whatever the store client.
\<close>

lemma handler_record_out_of_order:
  assumes "mark_connected_try supabase dn cid ver cps w = (Inl e, w')"
      and "clock w' (reads w') < clock w' (Suc (reads w'))"
  shows "\<not> ts_le (first_seen (fst (mark_connected supabase dn cid ver cps w)))
                 (last_seen (fst (mark_connected supabase dn cid ver cps w)))"
  using assms by (simp add: mark_connected_def now_iso_def)

text \<open>
  Claim C2 says that \<^verbatim>\<open>first_seen\<close> is never after \<^verbatim>\<open>last_seen\<close> in a record that an
  operation returns, the record of the \<^verbatim>\<open>except\<close> handler of \<^verbatim>\<open>mark_connected\<close>
  included. The handler reads the clock once for \<^verbatim>\<open>last_seen\<close> and then again for
  \<^verbatim>\<open>first_seen\<close>, where the insert paths use one reading for both. With a store that
  is down and a clock that advances between the two readings, the record returned has
  \<^verbatim>\<open>last_seen\<close> 100 and \<^verbatim>\<open>first_seen\<close> 101.
\<close>

theorem fallback_first_seen_after_last_seen:
  "last_seen (fst (mark_connected (table_client Map.empty) ''agent1'' None None None
                     (init_world [] [True] (\<lambda>i. 100 + i)))) = PTime 100 \<and>
   first_seen (fst (mark_connected (table_client Map.empty) ''agent1'' None None None
                     (init_world [] [True] (\<lambda>i. 100 + i)))) = PTime 101 \<and>
   \<not> ts_le (first_seen (fst (mark_connected (table_client Map.empty) ''agent1'' None None None
                              (init_world [] [True] (\<lambda>i. 100 + i)))))
            (last_seen (fst (mark_connected (table_client Map.empty) ''agent1'' None None None
                              (init_world [] [True] (\<lambda>i. 100 + i)))))"
  by (simp add: mark_connected_def mark_connected_try_table init_world_def next_fault_def
        now_iso_def Let_def)

end
